theory Spec2Isabelle
  imports Main "HOL-Library.Log_Nat"
begin

section \<open>Python values and exceptions\<close>

text \<open>
  The module \<^verbatim>\<open>imbalanced/datasets/generic.py\<close> defines three classes:
  \<open>DatasetWrapper\<close>, \<open>PartitionedDataset\<close> and \<open>ResampledDataset\<close>.
  Every \<open>assert\<close> of the source raises \<open>AssertionError\<close> with the message written
  next to it; the message is kept, so that the assertion that failed can be told.
  The specification calls the failed checks on arguments \<open>InvariantViolation\<close>, the failed
  \<open>isinstance(_, Dataset)\<close> check \<open>TypeMismatch\<close>, and \<open>IndexError\<close> \<open>IndexOutOfRange\<close>.
\<close>

datatype py_error =
    AssertionError string
  | IndexError
  | ValueError
  | TypeError
  | KeyError
  | AttributeError

text \<open>
  The wrapped object is used through \<open>len(dataset)\<close> and \<open>dataset[i]\<close> only: a dataset
  is a length and an indexing function that returns a row or raises. The length is a
  natural number, as Python's \<open>len\<close> demands; datasets without \<open>__len__\<close> are left out.
\<close>

record 'r Dataset =
  ds_len :: nat
  ds_getitem :: "int \<Rightarrow> py_error + 'r"

text \<open>An argument that is tested with \<open>isinstance(_, Dataset)\<close>.\<close>

datatype 'r pyobj = DatasetObj "'r Dataset" | OtherObj

text \<open>An argument that is tested with \<open>isinstance(_, bool)\<close>.\<close>

datatype pyflag = PyBool bool | NotBool

text \<open>
  A method that raises leaves the object as it was before the call (in each method of
  the module the assignments to \<open>self\<close> come after the last check); a method that returns
  leaves the updated object.
\<close>

definition after :: "'s \<Rightarrow> py_error + 's \<Rightarrow> 's" where
  "after self r = (case r of Inl e \<Rightarrow> self | Inr self' \<Rightarrow> self')"

text \<open>
  Indexing a Python list or a one-dimensional numpy array with an integer: a negative
  index counts from the end, and an index outside \<open>[-n, n)\<close> raises \<open>IndexError\<close>.
\<close>

definition py_getitem :: "'a list \<Rightarrow> int \<Rightarrow> py_error + 'a" where
  "py_getitem xs i =
     (if i < - int (length xs) \<or> int (length xs) \<le> i then Inl IndexError
      else if i < 0 then Inr (xs ! nat (i + int (length xs)))
      else Inr (xs ! nat i))"

text \<open>A dataset backed by a Python list of rows: \<open>__getitem__\<close> is \<open>self.rows[idx]\<close>.\<close>

definition ListDataset :: "'r list \<Rightarrow> 'r Dataset" where
  "ListDataset rows = \<lparr>ds_len = length rows, ds_getitem = py_getitem rows\<rparr>"


section \<open>DatasetWrapper\<close>

text \<open>
  \<open>self._dataset\<close> is \<open>None\<close> until the setter has run; \<open>self._lock_dataset\<close> is an
  attribute that does not exist until the constructor assigns it (\<open>None\<close> here), and
  reading it before that would raise \<open>AttributeError\<close>.
\<close>

record 'r DatasetWrapper =
  priv_dataset :: "'r Dataset option"
  priv_lock_dataset :: "bool option"

definition DatasetWrapper_dataset ::
  "('r, 'm) DatasetWrapper_scheme \<Rightarrow> 'r Dataset option" where
  "DatasetWrapper_dataset self = priv_dataset self"

definition DatasetWrapper_dataset_setter ::
  "('r, 'm) DatasetWrapper_scheme \<Rightarrow> 'r pyobj \<Rightarrow> py_error + ('r, 'm) DatasetWrapper_scheme" where
  "DatasetWrapper_dataset_setter self dataset =
     (if priv_dataset self \<noteq> None \<and> priv_lock_dataset self = None then Inl AttributeError
      else if priv_dataset self \<noteq> None \<and> priv_lock_dataset self = Some True then
        Inl (AssertionError
          ''Wrapped dataset cannot be changed after wrapper has been initialized.'')
      else (case dataset of
              OtherObj \<Rightarrow>
                Inl (AssertionError
                  ''Wrapped object must be an instance of Dataset (or a subclass).'')
            | DatasetObj d \<Rightarrow> Inr (self\<lparr>priv_dataset := Some d\<rparr>)))"

definition DatasetWrapper_init :: "'r pyobj \<Rightarrow> pyflag \<Rightarrow> py_error + 'r DatasetWrapper" where
  "DatasetWrapper_init dataset lock_dataset =
     (case DatasetWrapper_dataset_setter
             \<lparr>priv_dataset = None, priv_lock_dataset = None\<rparr> dataset of
        Inl e \<Rightarrow> Inl e
      | Inr self \<Rightarrow>
          (case lock_dataset of
             PyBool b \<Rightarrow> Inr (self\<lparr>priv_lock_dataset := Some b\<rparr>)
           | NotBool \<Rightarrow> Inr (self\<lparr>priv_lock_dataset := Some True\<rparr>)))"


section \<open>Python numbers\<close>

text \<open>
  A partition size is an \<open>int\<close> or a \<open>float\<close>. A float is the rational number that the
  double denotes. Arithmetic on floats rounds the exact result to the nearest number with
  a 53-bit significand, ties to the even significand, as IEEE 754 does; the exponent is
  not bounded, so overflow to \<open>inf\<close>, \<open>nan\<close> and subnormal numbers are outside the model.
\<close>

datatype pynum = PyInt int | PyFloat rat

definition round_half_even :: "rat \<Rightarrow> int" where
  "round_half_even q =
     (if q - of_int \<lfloor>q\<rfloor> < 1 / 2 then \<lfloor>q\<rfloor>
      else if 1 / 2 < q - of_int \<lfloor>q\<rfloor> then \<lfloor>q\<rfloor> + 1
      else if even \<lfloor>q\<rfloor> then \<lfloor>q\<rfloor> else \<lfloor>q\<rfloor> + 1)"

text \<open>For \<open>q > 0\<close>, the integer \<open>k\<close> with \<open>2 ^ k \<le> q < 2 ^ (k + 1)\<close>.\<close>

definition floor_log2 :: "rat \<Rightarrow> int" where
  "floor_log2 q =
     (let k = bitlen (fst (quotient_of q)) - bitlen (snd (quotient_of q))
      in if power_int 2 k \<le> q then k else k - 1)"

text \<open>The double nearest to a rational.\<close>

definition fl :: "rat \<Rightarrow> rat" where
  "fl q =
     (if q = 0 then 0
      else sgn q * of_int (round_half_even (\<bar>q\<bar> / power_int 2 (floor_log2 \<bar>q\<bar> - 52)))
             * power_int 2 (floor_log2 \<bar>q\<bar> - 52))"

text \<open>A float literal of the source, such as \<open>0.64\<close>, is the double nearest to it.\<close>

definition float_literal :: "rat \<Rightarrow> pynum" where
  "float_literal q = PyFloat (fl q)"

text \<open>The exact value of a number; Python compares an \<open>int\<close> with a \<open>float\<close> exactly.\<close>

fun py_val :: "pynum \<Rightarrow> rat" where
  "py_val (PyInt i) = of_int i"
| "py_val (PyFloat q) = q"

text \<open>\<open>float(x)\<close>, the conversion applied to an \<open>int\<close> operand that meets a \<open>float\<close>.\<close>

fun py_float :: "pynum \<Rightarrow> rat" where
  "py_float (PyInt i) = fl (of_int i)"
| "py_float (PyFloat q) = q"

fun py_add :: "pynum \<Rightarrow> pynum \<Rightarrow> pynum" where
  "py_add (PyInt a) (PyInt b) = PyInt (a + b)"
| "py_add a b = PyFloat (fl (py_float a + py_float b))"

fun py_mul :: "pynum \<Rightarrow> pynum \<Rightarrow> pynum" where
  "py_mul (PyInt a) (PyInt b) = PyInt (a * b)"
| "py_mul a b = PyFloat (fl (py_float a * py_float b))"

definition py_lt :: "pynum \<Rightarrow> pynum \<Rightarrow> bool" where
  "py_lt a b = (py_val a < py_val b)"

definition py_le :: "pynum \<Rightarrow> pynum \<Rightarrow> bool" where
  "py_le a b = (py_val a \<le> py_val b)"

definition py_eq :: "pynum \<Rightarrow> pynum \<Rightarrow> bool" where
  "py_eq a b = (py_val a = py_val b)"

text \<open>\<open>round(x)\<close> with one argument: an \<open>int\<close>, halves rounded to the even neighbour.\<close>

fun py_round :: "pynum \<Rightarrow> int" where
  "py_round (PyInt i) = i"
| "py_round (PyFloat q) = round_half_even q"

text \<open>\<open>int(x)\<close>: truncation towards zero.\<close>

fun py_int :: "pynum \<Rightarrow> int" where
  "py_int (PyInt i) = i"
| "py_int (PyFloat q) = (if 0 \<le> q then \<lfloor>q\<rfloor> else \<lceil>q\<rceil>)"

text \<open>\<open>sum(xs)\<close> adds from the left, starting from the \<open>int\<close> 0.\<close>

definition py_sum :: "pynum list \<Rightarrow> pynum" where
  "py_sum xs = foldl py_add (PyInt 0) xs"

text \<open>\<open>min(xs)\<close> keeps the first of the smallest items and raises on an empty argument.\<close>

fun py_min :: "pynum list \<Rightarrow> py_error + pynum" where
  "py_min [] = Inl ValueError"
| "py_min (x # xs) = Inr (foldl (\<lambda>best item. if py_lt item best then item else best) x xs)"

text \<open>A list comprehension whose element expression may raise.\<close>

fun comprehension :: "('a \<Rightarrow> py_error + 'b) \<Rightarrow> 'a list \<Rightarrow> py_error + 'b list" where
  "comprehension f [] = Inr []"
| "comprehension f (x # xs) =
     (case f x of
        Inl e \<Rightarrow> Inl e
      | Inr y \<Rightarrow> (case comprehension f xs of Inl e \<Rightarrow> Inl e | Inr ys \<Rightarrow> Inr (y # ys)))"

text \<open>\<open>xs.index(x)\<close>: the first position of \<open>x\<close>.\<close>

fun list_index :: "'a list \<Rightarrow> 'a \<Rightarrow> py_error + int" where
  "list_index [] x = Inl ValueError"
| "list_index (y # ys) x =
     (if y = x then Inr 0
      else (case list_index ys x of Inl e \<Rightarrow> Inl e | Inr i \<Rightarrow> Inr (i + 1)))"

text \<open>\<open>np.cumsum\<close> of a list of integers.\<close>

fun cumsum_from :: "int \<Rightarrow> int list \<Rightarrow> int list" where
  "cumsum_from acc [] = []"
| "cumsum_from acc (x # xs) = (acc + x) # cumsum_from (acc + x) xs"

definition np_cumsum :: "int list \<Rightarrow> int list" where
  "np_cumsum xs = cumsum_from 0 xs"


section \<open>PartitionedDataset\<close>

text \<open>
  A \<open>dict\<close> keeps its items in insertion order: the partition specification is the list
  of its items, with distinct keys. \<open>np.cumsum\<close> computes in 64-bit integers; the sizes
  are not negative and their sum has been checked against \<open>len(dataset)\<close>, which Python
  keeps below \<open>2 ^ 63\<close>, so the running sums are modelled without wrap-around.
\<close>

type_synonym partition_spec = "(string \<times> pynum) list"

text \<open>An argument that is tested with \<open>isinstance(_, dict)\<close>.\<close>

datatype partitions_arg = PyDict partition_spec | NotDict

record 'r PartitionedDataset = "'r DatasetWrapper" +
  priv_partition_names :: "string list"
  priv_partition_sizes :: "int list"
  priv_partition_offsets :: "int list"
  priv_active_partition_idx :: "int option"

definition default_partitions :: partition_spec where
  "default_partitions =
     [(''train'', float_literal (64 / 100)),
      (''val'', float_literal (16 / 100)),
      (''test'', float_literal (2 / 10))]"

text \<open>Lines 95 to 97: fractions become sizes when the values sum to at most 1.\<close>

definition fractional_to_sizes :: "nat \<Rightarrow> partition_spec \<Rightarrow> partition_spec" where
  "fractional_to_sizes n partitions =
     (if py_le (py_sum (map snd partitions)) (PyInt 1)
      then map (\<lambda>(name, fraction). (name, PyInt (py_round (py_mul fraction (PyInt (int n))))))
             partitions
      else partitions)"

definition PartitionedDataset_set_active_partition ::
  "'r PartitionedDataset \<Rightarrow> string \<Rightarrow> py_error + 'r PartitionedDataset" where
  "PartitionedDataset_set_active_partition self partition_name =
     (if partition_name \<notin> set (priv_partition_names self)
      then Inl (AssertionError ''Invalid partition specified'')
      else (case list_index (priv_partition_names self) partition_name of
              Inl e \<Rightarrow> Inl e
            | Inr i \<Rightarrow> Inr (self\<lparr>priv_active_partition_idx := Some i\<rparr>)))"

text \<open>
  The constructor. \<open>len(dataset)\<close> is read after the wrapper's constructor has accepted
  \<open>dataset\<close>, so the branch for an object that is not a dataset is never reached.
\<close>

definition PartitionedDataset_init ::
  "'r pyobj \<Rightarrow> partitions_arg option \<Rightarrow> py_error + 'r PartitionedDataset" where
  "PartitionedDataset_init dataset partitions =
     (case DatasetWrapper_init dataset (PyBool True) of
        Inl e \<Rightarrow> Inl e
      | Inr w \<Rightarrow>
     (case dataset of
        OtherObj \<Rightarrow> Inl TypeError
      | DatasetObj d \<Rightarrow>
     (case (case partitions of None \<Rightarrow> PyDict default_partitions | Some p \<Rightarrow> p) of
        NotDict \<Rightarrow>
          Inl (AssertionError ''Partition specification must be a dictionary object'')
      | PyDict partitions1 \<Rightarrow>
      if \<not> 2 \<le> length partitions1 then
        Inl (AssertionError ''Partition specification must define at least two partitions'')
      else
     (case py_min (map snd partitions1) of
        Inl e \<Rightarrow> Inl e
      | Inr smallest \<Rightarrow>
      if \<not> py_lt (PyInt 0) smallest then
        Inl (AssertionError ''Partitions must be non-empty'')
      else
     (let partitions2 = fractional_to_sizes (ds_len d) partitions1
      in
      if \<not> list_all (\<lambda>sz. py_eq sz (PyInt (py_int sz))) (map snd partitions2) then
        Inl (AssertionError
          ''Partition sizes must be integer, or fractional and sum to <= 1'')
      else if \<not> py_eq (py_sum (map snd partitions2)) (PyInt (int (ds_len d))) then
        Inl (AssertionError ''Partition sizes must sum to dataset size'')
      else
     (case comprehension
             (\<lambda>name. case map_of partitions2 name of
                        None \<Rightarrow> Inl KeyError
                      | Some sz \<Rightarrow> Inr (py_int sz))
             (map fst partitions2) of
        Inl e \<Rightarrow> Inl e
      | Inr sizes \<Rightarrow>
     (let self = \<lparr>priv_dataset = priv_dataset w,
                  priv_lock_dataset = priv_lock_dataset w,
                  priv_partition_names = map fst partitions2,
                  priv_partition_sizes = sizes,
                  priv_partition_offsets = np_cumsum sizes,
                  priv_active_partition_idx = None\<rparr>
      in
      if ''train'' \<in> set (priv_partition_names self)
      then PartitionedDataset_set_active_partition self ''train''
      else (case py_getitem (priv_partition_names self) 0 of
              Inl e \<Rightarrow> Inl e
            | Inr first \<Rightarrow> PartitionedDataset_set_active_partition self first))))))))"

definition PartitionedDataset_active_partition ::
  "'r PartitionedDataset \<Rightarrow> py_error + string" where
  "PartitionedDataset_active_partition self =
     (case priv_active_partition_idx self of
        None \<Rightarrow> Inl TypeError
      | Some a \<Rightarrow> py_getitem (priv_partition_names self) a)"

definition PartitionedDataset_partitions ::
  "'r PartitionedDataset \<Rightarrow> py_error + (string \<times> int) list" where
  "PartitionedDataset_partitions self =
     comprehension
       (\<lambda>(i, name). case py_getitem (priv_partition_sizes self) (int i) of
                      Inl e \<Rightarrow> Inl e
                    | Inr sz \<Rightarrow> Inr (name, sz))
       (enumerate 0 (priv_partition_names self))"

definition PartitionedDataset_train ::
  "'r PartitionedDataset \<Rightarrow> py_error + 'r PartitionedDataset" where
  "PartitionedDataset_train self = PartitionedDataset_set_active_partition self ''train''"

definition PartitionedDataset_val ::
  "'r PartitionedDataset \<Rightarrow> py_error + 'r PartitionedDataset" where
  "PartitionedDataset_val self = PartitionedDataset_set_active_partition self ''val''"

definition PartitionedDataset_test ::
  "'r PartitionedDataset \<Rightarrow> py_error + 'r PartitionedDataset" where
  "PartitionedDataset_test self = PartitionedDataset_set_active_partition self ''test''"

definition PartitionedDataset_getitem :: "'r PartitionedDataset \<Rightarrow> int \<Rightarrow> py_error + 'r" where
  "PartitionedDataset_getitem self idx =
     (case priv_active_partition_idx self of
        None \<Rightarrow> Inl TypeError
      | Some a \<Rightarrow>
     (case py_getitem (priv_partition_sizes self) a of
        Inl e \<Rightarrow> Inl e
      | Inr sz \<Rightarrow>
      if sz \<le> idx then Inl IndexError
      else
     (case py_getitem (priv_partition_offsets self) (a - 1) of
        Inl e \<Rightarrow> Inl e
      | Inr offset \<Rightarrow>
     (case DatasetWrapper_dataset self of
        None \<Rightarrow> Inl TypeError
      | Some d \<Rightarrow> ds_getitem d (offset + idx)))))"

definition PartitionedDataset_len :: "'r PartitionedDataset \<Rightarrow> py_error + int" where
  "PartitionedDataset_len self =
     (case priv_active_partition_idx self of
        None \<Rightarrow> Inl TypeError
      | Some a \<Rightarrow> py_getitem (priv_partition_sizes self) a)"


section \<open>ResampledDataset\<close>

text \<open>
  A numpy array of integers, of any number of dimensions: a scalar (a 0-dimensional
  array) or a sequence of sub-arrays. \<open>flatten\<close> lists the entries in row-major order.
  The default samples are \<open>np.arange(len(dataset), dtype=np.int)\<close>, read with a numpy
  in which \<open>np.int\<close> still names Python's \<open>int\<close>.
\<close>

datatype ndarray = Scalar int | Array "ndarray list"

fun np_flatten :: "ndarray \<Rightarrow> int list" where
  "np_flatten (Scalar x) = [x]"
| "np_flatten (Array xs) = concat (map np_flatten xs)"

text \<open>\<open>a.min()\<close> and \<open>a.max()\<close> raise \<open>ValueError\<close> on an array without entries.\<close>

fun np_min :: "int list \<Rightarrow> py_error + int" where
  "np_min [] = Inl ValueError"
| "np_min (x # xs) = Inr (foldl min x xs)"

fun np_max :: "int list \<Rightarrow> py_error + int" where
  "np_max [] = Inl ValueError"
| "np_max (x # xs) = Inr (foldl max x xs)"

definition np_arange :: "nat \<Rightarrow> ndarray" where
  "np_arange n = Array (map (\<lambda>i. Scalar (int i)) [0..<n])"

text \<open>An argument that is tested with \<open>isinstance(_, np.ndarray)\<close>.\<close>

datatype samples_arg = NdArray ndarray | NotNdArray

record 'r ResampledDataset = "'r DatasetWrapper" +
  priv_samples :: "int list option"

definition ResampledDataset_samples :: "'r ResampledDataset \<Rightarrow> int list option" where
  "ResampledDataset_samples self = priv_samples self"

definition ResampledDataset_samples_setter ::
  "'r ResampledDataset \<Rightarrow> samples_arg \<Rightarrow> py_error + 'r ResampledDataset" where
  "ResampledDataset_samples_setter self samples =
     (case samples of
        NotNdArray \<Rightarrow> Inl (AssertionError ''Sample indices must be a numpy ndarray'')
      | NdArray a \<Rightarrow>
     (let samples1 = np_flatten a
      in
     (case np_min samples1 of
        Inl e \<Rightarrow> Inl e
      | Inr smallest \<Rightarrow>
      if \<not> 0 \<le> smallest then Inl (AssertionError ''Sample indices must be non-negative'')
      else
     (case np_max samples1 of
        Inl e \<Rightarrow> Inl e
      | Inr largest \<Rightarrow>
     (case DatasetWrapper_dataset self of
        None \<Rightarrow> Inl TypeError
      | Some d \<Rightarrow>
      if \<not> largest < int (ds_len d) then
        Inl (AssertionError ''Sample indices must be found in original dataset'')
      else Inr (self\<lparr>priv_samples := Some samples1\<rparr>))))))"

definition ResampledDataset_init ::
  "'r pyobj \<Rightarrow> samples_arg option \<Rightarrow> py_error + 'r ResampledDataset" where
  "ResampledDataset_init dataset samples =
     (case DatasetWrapper_init dataset (PyBool True) of
        Inl e \<Rightarrow> Inl e
      | Inr w \<Rightarrow>
     (let self = \<lparr>priv_dataset = priv_dataset w,
                  priv_lock_dataset = priv_lock_dataset w,
                  priv_samples = None\<rparr>
      in
     (case samples of
        Some s \<Rightarrow> ResampledDataset_samples_setter self s
      | None \<Rightarrow>
     (case DatasetWrapper_dataset self of
        None \<Rightarrow> Inl TypeError
      | Some d \<Rightarrow> ResampledDataset_samples_setter self (NdArray (np_arange (ds_len d)))))))"

definition ResampledDataset_getitem :: "'r ResampledDataset \<Rightarrow> int \<Rightarrow> py_error + 'r" where
  "ResampledDataset_getitem self idx =
     (case priv_samples self of
        None \<Rightarrow> Inl TypeError
      | Some samples \<Rightarrow>
     (case py_getitem samples idx of
        Inl e \<Rightarrow> Inl e
      | Inr i \<Rightarrow>
     (case DatasetWrapper_dataset self of
        None \<Rightarrow> Inl TypeError
      | Some d \<Rightarrow> ds_getitem d i)))"

definition ResampledDataset_len :: "'r ResampledDataset \<Rightarrow> py_error + int" where
  "ResampledDataset_len self =
     (case priv_samples self of
        None \<Rightarrow> Inl TypeError
      | Some samples \<Rightarrow> Inr (int (length samples)))"


section \<open>Clients of a view\<close>

text \<open>
  What a holder of a view can do to it after construction: call its mutating methods and
  assign to its properties, in any order. A call that raises leaves the view as it was.
\<close>

datatype 'r pd_call =
    Pd_set_active_partition string
  | Pd_train
  | Pd_val
  | Pd_test
  | Pd_set_dataset "'r pyobj"

fun pd_apply :: "'r PartitionedDataset \<Rightarrow> 'r pd_call \<Rightarrow> 'r PartitionedDataset" where
  "pd_apply self (Pd_set_active_partition name) =
     after self (PartitionedDataset_set_active_partition self name)"
| "pd_apply self Pd_train = after self (PartitionedDataset_train self)"
| "pd_apply self Pd_val = after self (PartitionedDataset_val self)"
| "pd_apply self Pd_test = after self (PartitionedDataset_test self)"
| "pd_apply self (Pd_set_dataset obj) = after self (DatasetWrapper_dataset_setter self obj)"

datatype 'r rd_call =
    Rd_set_samples samples_arg
  | Rd_set_dataset "'r pyobj"

fun rd_apply :: "'r ResampledDataset \<Rightarrow> 'r rd_call \<Rightarrow> 'r ResampledDataset" where
  "rd_apply self (Rd_set_samples s) = after self (ResampledDataset_samples_setter self s)"
| "rd_apply self (Rd_set_dataset obj) = after self (DatasetWrapper_dataset_setter self obj)"


section \<open>Notions used in the statements\<close>

text \<open>
  Line 108 reads every size back from the dict by its name; with the names taken from the
  dict itself no lookup fails, and these are the sizes read.
\<close>

definition pd_sizes :: "partition_spec \<Rightarrow> int list" where
  "pd_sizes p2 = map (\<lambda>name. py_int (the (map_of p2 name))) (map fst p2)"


section \<open>Sequences and indexing\<close>

lemma py_getitem_inside:
  "0 \<le> i \<Longrightarrow> i < int (length xs) \<Longrightarrow> py_getitem xs i = Inr (xs ! nat i)"
  by (simp add: py_getitem_def)

lemma py_getitem_from_end:
  "- int (length xs) \<le> i \<Longrightarrow> i < 0 \<Longrightarrow> py_getitem xs i = Inr (xs ! nat (i + int (length xs)))"
  by (simp add: py_getitem_def)

lemma py_getitem_outside:
  "int (length xs) \<le> i \<or> i < - int (length xs) \<Longrightarrow> py_getitem xs i = Inl IndexError"
  by (auto simp add: py_getitem_def)

lemma list_index_member:
  "x \<in> set xs \<Longrightarrow>
     \<exists>i. list_index xs x = Inr (int i) \<and> i < length xs \<and> xs ! i = x \<and> (\<forall>j<i. xs ! j \<noteq> x)"
proof (induction xs)
  case Nil
  then show ?case by simp
next
  case (Cons y ys)
  show ?case
  proof (cases "y = x")
    case True
    then show ?thesis by (intro exI [of _ 0]) simp
  next
    case False
    with Cons obtain i where i: "list_index ys x = Inr (int i)" "i < length ys" "ys ! i = x"
      "\<forall>j<i. ys ! j \<noteq> x" by auto
    have "\<forall>j<Suc i. (y # ys) ! j \<noteq> x"
    proof (intro allI impI)
      fix j assume "j < Suc i"
      then show "(y # ys) ! j \<noteq> x" using False i(4) by (cases j) auto
    qed
    with False i show ?thesis by (intro exI [of _ "Suc i"]) simp
  qed
qed

lemma comprehension_total:
  "(\<And>x. x \<in> set xs \<Longrightarrow> f x = Inr (g x)) \<Longrightarrow> comprehension f xs = Inr (map g xs)"
  by (induction xs) simp_all

lemma length_cumsum_from [simp]: "length (cumsum_from acc xs) = length xs"
  by (induction xs arbitrary: acc) simp_all

lemma cumsum_from_nth:
  "j < length xs \<Longrightarrow> cumsum_from acc xs ! j = acc + sum_list (take (Suc j) xs)"
proof (induction xs arbitrary: acc j)
  case Nil
  then show ?case by simp
next
  case (Cons x xs)
  show ?case
  proof (cases j)
    case 0
    then show ?thesis by simp
  next
    case (Suc j')
    with Cons.prems have "j' < length xs" by simp
    from Cons.IH [OF this, of "acc + x"] Suc show ?thesis by simp
  qed
qed

section \<open>Facts about Python numbers\<close>

subsection \<open>Minimum, integrality, sums of ints\<close>

lemma foldl_py_min_lower:
  "py_val (foldl (\<lambda>best item. if py_lt item best then item else best) a xs) \<le> py_val a
   \<and> (\<forall>x\<in>set xs.
         py_val (foldl (\<lambda>best item. if py_lt item best then item else best) a xs) \<le> py_val x)"
proof (induction xs arbitrary: a)
  case Nil
  show ?case by simp
next
  case (Cons y ys)
  let ?f = "\<lambda>best item. if py_lt item best then item else best"
  let ?b = "if py_lt y a then y else a"
  have b: "py_val ?b \<le> py_val a" "py_val ?b \<le> py_val y"
    by (simp_all add: py_lt_def)
  from Cons.IH [of ?b] have "py_val (foldl ?f ?b ys) \<le> py_val ?b"
    and rest: "\<forall>x\<in>set ys. py_val (foldl ?f ?b ys) \<le> py_val x" by blast+
  with b have "py_val (foldl ?f ?b ys) \<le> py_val a" "py_val (foldl ?f ?b ys) \<le> py_val y"
    by linarith+
  with rest show ?case by simp
qed

lemma py_min_lower:
  assumes "py_min xs = Inr m" and "x \<in> set xs"
  shows "py_val m \<le> py_val x"
proof (cases xs)
  case Nil
  with assms show ?thesis by simp
next
  case (Cons y ys)
  with assms foldl_py_min_lower [of y ys] show ?thesis by auto
qed

lemma py_min_nonempty: "xs \<noteq> [] \<Longrightarrow> \<exists>m. py_min xs = Inr m"
  by (cases xs) simp_all

lemma integral_iff: "py_eq sz (PyInt (py_int sz)) \<longleftrightarrow> py_val sz \<in> \<int>"
proof (cases sz)
  case (PyInt i)
  then show ?thesis by (simp add: py_eq_def)
next
  case (PyFloat q)
  show ?thesis
  proof
    assume "py_eq sz (PyInt (py_int sz))"
    then have "q = of_int (py_int sz)" by (simp add: py_eq_def PyFloat)
    then have "q \<in> \<int>" by (metis Ints_of_int)
    then show "py_val sz \<in> \<int>" by (simp add: PyFloat)
  next
    assume "py_val sz \<in> \<int>"
    then obtain k where "q = of_int k" by (auto simp: PyFloat elim: Ints_cases)
    then show "py_eq sz (PyInt (py_int sz))" by (simp add: py_eq_def PyFloat)
  qed
qed

lemma py_sum_ints: "foldl py_add (PyInt a) (map PyInt xs) = PyInt (a + sum_list xs)"
  by (induction xs arbitrary: a) (simp_all add: add.assoc)

lemma py_sum_map_PyInt: "py_sum (map PyInt xs) = PyInt (sum_list xs)"
  by (simp add: py_sum_def py_sum_ints)

lemma py_sum_map_PyInt_val: "py_val (py_sum (map PyInt xs)) = sum_list (map py_val (map PyInt xs))"
  by (simp add: py_sum_map_PyInt comp_def) (induction xs, simp_all)

subsection \<open>Doubles hold the integers up to 2 ^ 53 exactly\<close>

text \<open>
  Every integer from 0 to \<open>2 ^ 53\<close> is a double, so rounding leaves it alone, and a sum
  of non-negative integer-valued numbers that stays within this range is computed without
  error, whether its terms are \<open>int\<close>s or \<open>float\<close>s.
\<close>

lemma round_half_even_of_int [simp]: "round_half_even (of_int k) = k"
  by (simp add: round_half_even_def)

lemma quotient_of_of_int: "quotient_of (of_int n) = (n, 1)"
  by (simp add: of_int_rat quotient_of_Fract)

lemma bitlen_one: "bitlen 1 = 1"
  by (subst compute_bitlen) simp

lemma floor_log2_of_int:
  assumes "0 < n"
  shows "floor_log2 (of_int n) = bitlen n - 1"
proof -
  have "1 \<le> bitlen n" using assms bitlen_eq_zero_iff [of n] bitlen_nonneg [of n] by linarith
  then have "(2::rat) powi (bitlen n - 1) = of_int (2 ^ nat (bitlen n - 1))"
    by (simp add: power_int_def)
  also have "\<dots> \<le> of_int n"
    using bitlen_bounds [OF assms] by (simp only: of_int_le_iff)
  finally show ?thesis
    by (simp add: floor_log2_def quotient_of_of_int bitlen_one)
qed

lemma fl_of_int_small:
  assumes "0 \<le> n" and "n < 2 ^ 53"
  shows "fl (of_int n) = of_int n"
proof (cases "n = 0")
  case True
  then show ?thesis by (simp add: fl_def)
next
  case False
  with assms have pos: "0 < n" by simp
  define e where "e = bitlen n - 1 - 52"
  have "bitlen n \<le> 53" using assms(2) by (simp add: bitlen_le_iff_power)
  then have e: "e \<le> 0" by (simp add: e_def)
  have scaled: "(of_int n :: rat) / 2 powi e = of_int (n * 2 ^ nat (- e))"
    using e by (simp add: power_int_def field_simps)
  have unscale: "(of_int (n * 2 ^ nat (- e)) :: rat) * 2 powi e = of_int n"
    using e by (simp add: power_int_def field_simps)
  show ?thesis
    using pos
    by (simp add: fl_def floor_log2_of_int e_def [symmetric] scaled unscale del: of_int_mult of_int_power)
qed

lemma fl_two_53: "fl (of_int (2 ^ 53)) = of_int (2 ^ 53)"
  by code_simp

lemma fl_of_int:
  assumes "0 \<le> n" and "n \<le> 2 ^ 53"
  shows "fl (of_int n) = of_int n"
  using assms fl_of_int_small [of n] fl_two_53 by (cases "n = 2 ^ 53") simp_all

lemma py_float_exact:
  assumes "py_val a \<in> \<int>" and "0 \<le> py_val a" and "py_val a \<le> 2 ^ 53"
  shows "py_float a = py_val a"
proof (cases a)
  case (PyInt i)
  with assms have "0 \<le> i" "i \<le> 2 ^ 53" by simp_all
  then show ?thesis by (simp add: PyInt fl_of_int)
next
  case (PyFloat q)
  then show ?thesis by simp
qed

lemma py_add_value: "py_val (py_add a b) = py_val a + py_val b
    \<or> py_val (py_add a b) = fl (py_float a + py_float b)"
  by (cases a; cases b) simp_all

lemma py_add_exact:
  assumes a: "py_val a \<in> \<int>" "0 \<le> py_val a" and b: "py_val b \<in> \<int>" "0 \<le> py_val b"
    and bound: "py_val a + py_val b \<le> 2 ^ 53"
  shows "py_val (py_add a b) = py_val a + py_val b"
proof -
  from a b bound have fa: "py_float a = py_val a" and fb: "py_float b = py_val b"
    by (simp_all add: py_float_exact)
  from a(1) b(1) obtain i j where ij: "py_val a = of_int i" "py_val b = of_int j"
    by (auto elim!: Ints_cases)
  with a b bound have "0 \<le> i + j" "i + j \<le> 2 ^ 53"
    by (simp_all flip: of_int_add)
  then have "fl (of_int (i + j)) = of_int (i + j)" by (rule fl_of_int)
  then have "fl (py_float a + py_float b) = py_val a + py_val b"
    by (simp add: fa fb ij)
  with py_add_value [of a b] show ?thesis by auto
qed

lemma foldl_py_add_exact:
  assumes "\<forall>x\<in>set xs. py_val x \<in> \<int> \<and> 0 \<le> py_val x"
    and "py_val acc \<in> \<int>" and "0 \<le> py_val acc"
    and "py_val acc + sum_list (map py_val xs) \<le> 2 ^ 53"
  shows "py_val (foldl py_add acc xs) = py_val acc + sum_list (map py_val xs)"
  using assms
proof (induction xs arbitrary: acc)
  case Nil
  then show ?case by simp
next
  case (Cons x xs)
  have rest: "0 \<le> sum_list (map py_val xs)"
    using Cons.prems(1) by (intro sum_list_nonneg) auto
  have x: "py_val x \<in> \<int>" "0 \<le> py_val x" using Cons.prems(1) by simp_all
  have "py_val acc + py_val x \<le> 2 ^ 53" using Cons.prems(4) rest by simp
  from py_add_exact [OF Cons.prems(2,3) x this]
  have step: "py_val (py_add acc x) = py_val acc + py_val x" .
  have "py_val (foldl py_add (py_add acc x) xs) =
          py_val (py_add acc x) + sum_list (map py_val xs)"
  proof (rule Cons.IH)
    show "\<forall>x\<in>set xs. py_val x \<in> \<int> \<and> 0 \<le> py_val x" using Cons.prems(1) by simp
    show "py_val (py_add acc x) \<in> \<int>" using step Cons.prems(2) x(1) by simp
    show "0 \<le> py_val (py_add acc x)" using step Cons.prems(3) x(2) by simp
    show "py_val (py_add acc x) + sum_list (map py_val xs) \<le> 2 ^ 53"
      using step Cons.prems(4) by simp
  qed
  with step show ?case by simp
qed

lemma py_sum_exact:
  assumes "\<forall>x\<in>set xs. py_val x \<in> \<int> \<and> 0 \<le> py_val x"
    and "sum_list (map py_val xs) \<le> 2 ^ 53"
  shows "py_val (py_sum xs) = sum_list (map py_val xs)"
  using foldl_py_add_exact [of xs "PyInt 0"] assms by (simp add: py_sum_def)

section \<open>DatasetWrapper: the lock\<close>

lemma DatasetWrapper_init_ok:
  "DatasetWrapper_init (DatasetObj d) flag =
     Inr \<lparr>priv_dataset = Some d,
          priv_lock_dataset = Some (case flag of PyBool b \<Rightarrow> b | NotBool \<Rightarrow> True)\<rparr>"
  by (simp add: DatasetWrapper_init_def DatasetWrapper_dataset_setter_def split: pyflag.split)

lemma setter_locked:
  assumes "priv_dataset self = Some d" and "priv_lock_dataset self = Some True"
  shows "DatasetWrapper_dataset_setter self obj =
           Inl (AssertionError
             ''Wrapped dataset cannot be changed after wrapper has been initialized.'')"
  using assms by (simp add: DatasetWrapper_dataset_setter_def)

lemma locked_setter_keeps:
  assumes "priv_dataset v = Some d" and "priv_lock_dataset v = Some True"
  shows "after v (DatasetWrapper_dataset_setter v obj) = v"
  by (simp add: after_def setter_locked [OF assms])

text \<open>
  C5. A wrapper constructed with \<open>lock_dataset=True\<close> around \<open>A\<close> rejects every later
  assignment to \<open>dataset\<close> with the lock's \<open>AssertionError\<close>, and \<open>A\<close> stays the wrapped
  dataset; a wrapper constructed with \<open>lock_dataset=False\<close> accepts the dataset \<open>B\<close>, and
  the getter then returns \<open>B\<close>; a lock flag that is not a \<open>bool\<close> leaves the lock on.
\<close>

theorem lock_enforcement:
  "DatasetWrapper_init (DatasetObj A) (PyBool True) =
     Inr \<lparr>priv_dataset = Some A, priv_lock_dataset = Some True\<rparr>
   \<and> DatasetWrapper_dataset_setter
        \<lparr>priv_dataset = Some A, priv_lock_dataset = Some True\<rparr> obj =
       Inl (AssertionError
         ''Wrapped dataset cannot be changed after wrapper has been initialized.'')
   \<and> DatasetWrapper_dataset
        (after \<lparr>priv_dataset = Some A, priv_lock_dataset = Some True\<rparr>
           (DatasetWrapper_dataset_setter
              \<lparr>priv_dataset = Some A, priv_lock_dataset = Some True\<rparr> obj)) = Some A
   \<and> DatasetWrapper_init (DatasetObj A) (PyBool False) =
       Inr \<lparr>priv_dataset = Some A, priv_lock_dataset = Some False\<rparr>
   \<and> DatasetWrapper_dataset
        (after \<lparr>priv_dataset = Some A, priv_lock_dataset = Some False\<rparr>
           (DatasetWrapper_dataset_setter
              \<lparr>priv_dataset = Some A, priv_lock_dataset = Some False\<rparr> (DatasetObj B))) = Some B
   \<and> DatasetWrapper_dataset_setter
        \<lparr>priv_dataset = Some A, priv_lock_dataset = Some False\<rparr> (DatasetObj B) =
       Inr \<lparr>priv_dataset = Some B, priv_lock_dataset = Some False\<rparr>
   \<and> DatasetWrapper_init (DatasetObj A) NotBool =
       Inr \<lparr>priv_dataset = Some A, priv_lock_dataset = Some True\<rparr>"
  by (simp add: DatasetWrapper_init_ok setter_locked after_def DatasetWrapper_dataset_def)
     (simp add: DatasetWrapper_dataset_setter_def)

section \<open>PartitionedDataset: construction\<close>

lemma fractional_to_sizes_names [simp]:
  "map fst (fractional_to_sizes n p) = map fst p"
  by (simp add: fractional_to_sizes_def case_prod_unfold comp_def)

lemma length_fractional_to_sizes [simp]: "length (fractional_to_sizes n p) = length p"
  by (simp add: fractional_to_sizes_def)

lemma fractional_to_sizes_cases:
  "fractional_to_sizes n p = p \<or> (\<exists>sizes. map snd (fractional_to_sizes n p) = map PyInt sizes)"
proof (cases "py_le (py_sum (map snd p)) (PyInt 1)")
  case True
  then have "map snd (fractional_to_sizes n p) =
      map PyInt (map (\<lambda>(name, fraction). py_round (py_mul fraction (PyInt (int n)))) p)"
    by (simp add: fractional_to_sizes_def case_prod_unfold comp_def)
  then show ?thesis by blast
next
  case False
  then show ?thesis by (simp add: fractional_to_sizes_def)
qed

lemma lookup_sizes:
  "comprehension
     (\<lambda>name. case map_of p name of None \<Rightarrow> Inl KeyError | Some sz \<Rightarrow> Inr (py_int sz))
     (map fst p) = Inr (map (\<lambda>name. py_int (the (map_of p name))) (map fst p))"
proof (rule comprehension_total)
  fix x assume "x \<in> set (map fst p)"
  then obtain v where "map_of p x = Some v"
    by (metis map_of_eq_None_iff not_Some_eq set_map)
  then show "(case map_of p x of None \<Rightarrow> Inl KeyError | Some sz \<Rightarrow> Inr (py_int sz)) =
          Inr (py_int (the (map_of p x)))" by simp
qed

lemma lookup_sizes_distinct:
  assumes "distinct (map fst p)"
  shows "map (\<lambda>name. py_int (the (map_of p name))) (map fst p) = map (\<lambda>(name, sz). py_int sz) p"
proof -
  have "\<And>k v. (k, v) \<in> set p \<Longrightarrow> py_int (the (map_of p k)) = py_int v"
    using assms by simp
  then show ?thesis by (auto simp: comp_def)
qed

lemma set_active_partition_ok:
  assumes "name \<in> set (priv_partition_names v)"
  shows "\<exists>i. PartitionedDataset_set_active_partition v name =
               Inr (v\<lparr>priv_active_partition_idx := Some (int i)\<rparr>)
             \<and> i < length (priv_partition_names v) \<and> priv_partition_names v ! i = name
             \<and> (\<forall>j<i. priv_partition_names v ! j \<noteq> name)"
  using list_index_member [OF assms]
  by (auto simp: PartitionedDataset_set_active_partition_def assms)

text \<open>
  What a successful construction has stored: the wrapped dataset with the lock on, the
  names in the order of the dict, the sizes and their running sums, and as active
  partition the first position of \<open>'train'\<close> or else position 0.
\<close>

lemma pd_init_Inr:
  assumes ok: "PartitionedDataset_init (DatasetObj d) ps = Inr v"
  shows "\<exists>p1 i. (case ps of None \<Rightarrow> PyDict default_partitions | Some a \<Rightarrow> a) = PyDict p1
           \<and> v = \<lparr>priv_dataset = Some d, priv_lock_dataset = Some True,
               priv_partition_names = map fst p1,
               priv_partition_sizes = pd_sizes (fractional_to_sizes (ds_len d) p1),
               priv_partition_offsets =
                 np_cumsum (pd_sizes (fractional_to_sizes (ds_len d) p1)),
               priv_active_partition_idx = Some (int i)\<rparr>
           \<and> i < length (priv_partition_names v)
           \<and> priv_partition_names v ! i =
               (if ''train'' \<in> set (priv_partition_names v) then ''train''
                else priv_partition_names v ! 0)
           \<and> (\<forall>j<i. priv_partition_names v ! j \<noteq> priv_partition_names v ! i)
           \<and> 2 \<le> length (priv_partition_names v)"
proof -
  obtain p1 where p1: "(case ps of None \<Rightarrow> PyDict default_partitions | Some a \<Rightarrow> a) = PyDict p1"
    using ok
    by (cases "case ps of None \<Rightarrow> PyDict default_partitions | Some a \<Rightarrow> a")
      (simp_all add: PartitionedDataset_init_def DatasetWrapper_init_ok)
  define p2 where "p2 = fractional_to_sizes (ds_len d) p1"
  define self where "self = \<lparr>priv_dataset = Some d, priv_lock_dataset = Some True,
      priv_partition_names = map fst p1, priv_partition_sizes = pd_sizes p2,
      priv_partition_offsets = np_cumsum (pd_sizes p2),
      priv_active_partition_idx = (None :: int option)\<rparr>"
  have len: "2 \<le> length p1"
    using ok unfolding PartitionedDataset_init_def
    by (simp add: DatasetWrapper_init_ok p1 split: if_splits)
  have ne: "map fst p1 \<noteq> []"
  proof
    assume "map fst p1 = []"
    then have "length p1 = 0" by simp
    with len show False by simp
  qed
  have first: "py_getitem (map fst p1) 0 = Inr (map fst p1 ! 0)"
    using ne by (simp add: py_getitem_def)
  have names2: "map fst p2 = map fst p1" by (simp add: p2_def)
  then have img2: "fst ` set p2 = fst ` set p1" by (metis set_map)
  have look: "comprehension
       (\<lambda>name. case map_of p2 name of None \<Rightarrow> Inl KeyError | Some sz \<Rightarrow> Inr (py_int sz))
       (map fst p1) = Inr (map (\<lambda>name. py_int (the (map_of p2 name))) (map fst p1))"
    using lookup_sizes [of p2] by (simp only: names2)
  have step: "(if ''train'' \<in> set (map fst p1)
               then PartitionedDataset_set_active_partition self ''train''
               else PartitionedDataset_set_active_partition self (map fst p1 ! 0)) = Inr v"
    using ok len first unfolding PartitionedDataset_init_def
    by (simp add: DatasetWrapper_init_ok Let_def p1 p2_def [symmetric]
        look pd_sizes_def self_def names2 img2
        split: if_splits sum.splits)
  define name where "name = (if ''train'' \<in> set (map fst p1) then ''train'' else map fst p1 ! 0)"
  have names: "priv_partition_names self = map fst p1" by (simp add: self_def)
  have "map fst p1 ! 0 \<in> set (map fst p1)"
    using ne by (intro nth_mem) simp
  then have mem: "name \<in> set (priv_partition_names self)"
    unfolding name_def names by presburger
  from step have "PartitionedDataset_set_active_partition self name = Inr v"
    by (simp add: name_def split: if_splits)
  with set_active_partition_ok [OF mem] obtain i where
    i: "v = self\<lparr>priv_active_partition_idx := Some (int i)\<rparr>" "i < length (map fst p1)"
      "map fst p1 ! i = name" "\<forall>j<i. map fst p1 ! j \<noteq> name"
    by (auto simp: names)
  have vn: "priv_partition_names v = map fst p1" by (simp add: i(1) names)
  show ?thesis
    apply (rule exI [of _ p1])
    apply (rule exI [of _ i])
    unfolding vn
    using i len p1 by (simp add: self_def p2_def name_def)
qed

text \<open>
  When the four checks pass, construction comes down to choosing the active partition.
\<close>

lemma pd_init_checks_pass:
  assumes p1: "(case ps of None \<Rightarrow> PyDict default_partitions | Some a \<Rightarrow> a) = PyDict p1"
    and len: "2 \<le> length p1"
    and smallest: "py_min (map snd p1) = Inr m" "py_lt (PyInt 0) m"
    and p2: "fractional_to_sizes (ds_len d) p1 = p2"
    and integral: "list_all (\<lambda>sz. py_eq sz (PyInt (py_int sz))) (map snd p2)"
    and total: "py_eq (py_sum (map snd p2)) (PyInt (int (ds_len d)))"
  shows "PartitionedDataset_init (DatasetObj d) ps =
           PartitionedDataset_set_active_partition
             \<lparr>priv_dataset = Some d, priv_lock_dataset = Some True,
              priv_partition_names = map fst p2, priv_partition_sizes = pd_sizes p2,
              priv_partition_offsets = np_cumsum (pd_sizes p2),
              priv_active_partition_idx = None\<rparr>
             (if ''train'' \<in> set (map fst p2) then ''train'' else map fst p2 ! 0)"
proof -
  have "length p2 = length p1" using p2 length_fractional_to_sizes by metis
  with len have "map fst p2 \<noteq> []" by auto
  then have first: "py_getitem (map fst p2) 0 = Inr (map fst p2 ! 0)"
    by (simp add: py_getitem_def)
  show ?thesis
    unfolding PartitionedDataset_init_def p1
    using len smallest p2 integral total first
    by (simp add: DatasetWrapper_init_ok Let_def lookup_sizes pd_sizes_def
        del: fractional_to_sizes_names)
qed

subsection \<open>Rejected specifications\<close>

text \<open>
  What the checks of construction do reject. Construction of a partitioned dataset raises
  \<open>AssertionError\<close>, with the message of the check that failed and without returning a view, whenever the specification has
  fewer than two partitions, or holds a size that is zero or negative, or holds, after the
  conversion of fractions (applied when the values sum to at most 1), a size that is not
  an integer, or the resulting integer sizes do not add up to \<open>len(dataset)\<close>. The sum is
  Python's \<open>sum\<close>: it is exact when the sizes are \<open>int\<close>s, which they are after the
  conversion, and for sizes written as \<open>float\<close>s it is exact as long as it does not exceed
  \<open>2 ^ 53\<close>, the range in which every integer is a double.
\<close>

lemma partition_construction_validation:
  assumes "length p < 2
     \<or> (\<exists>sz\<in>set (map snd p). py_val sz \<le> 0)
     \<or> (\<exists>sz\<in>set (map snd (fractional_to_sizes (ds_len d) p)). py_val sz \<notin> \<int>)
     \<or> (sum_list (map py_val (map snd (fractional_to_sizes (ds_len d) p))) \<noteq> of_nat (ds_len d)
        \<and> ((\<exists>sizes. map snd (fractional_to_sizes (ds_len d) p) = map PyInt sizes)
           \<or> sum_list (map py_val (map snd (fractional_to_sizes (ds_len d) p))) \<le> 2 ^ 53))"
  shows "PartitionedDataset_init (DatasetObj d) (Some (PyDict p)) \<in>
           {Inl (AssertionError ''Partition specification must define at least two partitions''),
            Inl (AssertionError ''Partitions must be non-empty''),
            Inl (AssertionError ''Partition sizes must be integer, or fractional and sum to <= 1''),
            Inl (AssertionError ''Partition sizes must sum to dataset size'')}"
proof (cases "2 \<le> length p")
  case False
  then show ?thesis
    by (simp add: PartitionedDataset_init_def DatasetWrapper_init_ok)
next
  case len: True
  then have "map snd p \<noteq> []" by auto
  then obtain m where m: "py_min (map snd p) = Inr m" using py_min_nonempty by blast
  let ?S = "map snd (fractional_to_sizes (ds_len d) p)"
  show ?thesis
  proof (cases "py_lt (PyInt 0) m")
    case False
    with len m show ?thesis
      by (simp add: PartitionedDataset_init_def DatasetWrapper_init_ok)
  next
    case pos: True
    have positive: "0 < py_val sz" if "sz \<in> set (map snd p)" for sz
      using py_min_lower [OF m that] pos by (simp add: py_lt_def)
    then have no_le0: "\<not> (\<exists>sz\<in>set (map snd p). py_val sz \<le> 0)" by fastforce
    show ?thesis
    proof (cases "list_all (\<lambda>sz. py_eq sz (PyInt (py_int sz))) ?S")
      case False
      with len m pos show ?thesis
        by (simp add: PartitionedDataset_init_def DatasetWrapper_init_ok Let_def)
    next
      case int: True
      then have integral: "\<forall>sz\<in>set ?S. py_val sz \<in> \<int>"
        by (simp add: list_all_iff integral_iff)
      with assms len no_le0
      have differs: "sum_list (map py_val ?S) \<noteq> of_nat (ds_len d)"
        and exact: "(\<exists>sizes. ?S = map PyInt sizes) \<or> sum_list (map py_val ?S) \<le> 2 ^ 53"
        by auto
      have "py_val (py_sum ?S) = sum_list (map py_val ?S)"
      proof (cases "\<exists>sizes. ?S = map PyInt sizes")
        case True
        then obtain sizes where "?S = map PyInt sizes" ..
        then show ?thesis by (simp only: py_sum_map_PyInt_val)
      next
        case False
        with exact have bound: "sum_list (map py_val ?S) \<le> 2 ^ 53" by simp
        from False fractional_to_sizes_cases [of "ds_len d" p]
        have same: "fractional_to_sizes (ds_len d) p = p" by blast
        have "\<forall>x\<in>set ?S. py_val x \<in> \<int> \<and> 0 \<le> py_val x"
        proof
          fix x assume x: "x \<in> set ?S"
          with integral have "py_val x \<in> \<int>" by blast
          moreover from x same positive [of x] have "0 \<le> py_val x" by simp
          ultimately show "py_val x \<in> \<int> \<and> 0 \<le> py_val x" ..
        qed
        then show ?thesis using bound by (rule py_sum_exact)
      qed
      with differs have "\<not> py_eq (py_sum ?S) (PyInt (int (ds_len d)))"
        by (simp add: py_eq_def)
      with len m pos int show ?thesis
        by (simp add: PartitionedDataset_init_def DatasetWrapper_init_ok Let_def)
    qed
  qed
qed

text \<open>
  One specification for each way of being rejected.
\<close>

lemma float_sizes_unchanged:
  "fractional_to_sizes 3 [(''a'', PyFloat (5 / 2)), (''b'', PyFloat (1 / 2))] =
     [(''a'', PyFloat (5 / 2)), (''b'', PyFloat (1 / 2))]"
  "fractional_to_sizes 3 [(''a'', PyFloat 2), (''b'', PyFloat 2)] =
     [(''a'', PyFloat 2), (''b'', PyFloat 2)]"
  "py_sum [PyFloat 2, PyFloat 2] = PyFloat 4"
  by code_simp+

lemma int_sizes_unchanged:
  "fractional_to_sizes 3 [(''a'', PyInt 2), (''b'', PyInt 2)] =
     [(''a'', PyInt 2), (''b'', PyInt 2)]"
  by (simp add: fractional_to_sizes_def py_sum_def py_le_def)

lemma five_halves_not_integer: "(5 / 2 :: rat) \<notin> \<int>"
proof
  assume "(5 / 2 :: rat) \<in> \<int>"
  then obtain k :: int where "(5 / 2 :: rat) = of_int k" by (auto elim: Ints_cases)
  then have "(5 :: rat) = of_int (2 * k)" by simp
  then have "(5 :: int) = 2 * k" by (metis of_int_eq_iff of_int_numeral)
  then show False by presburger
qed

lemma partition_construction_validation_witness:
  "length [(''a'', PyInt 3)] < 2
   \<and> PartitionedDataset_init (DatasetObj (ListDataset [10, 20, 30 :: int]))
        (Some (PyDict [(''a'', PyInt 3)])) =
       Inl (AssertionError ''Partition specification must define at least two partitions'')
   \<and> py_val (PyInt 0) \<le> 0
   \<and> PartitionedDataset_init (DatasetObj (ListDataset [10, 20, 30 :: int]))
        (Some (PyDict [(''a'', PyInt 3), (''b'', PyInt 0)])) =
       Inl (AssertionError ''Partitions must be non-empty'')
   \<and> py_val (PyFloat (5 / 2)) \<notin> \<int>
   \<and> PartitionedDataset_init (DatasetObj (ListDataset [10, 20, 30 :: int]))
        (Some (PyDict [(''a'', PyFloat (5 / 2)), (''b'', PyFloat (1 / 2))])) =
       Inl (AssertionError ''Partition sizes must be integer, or fractional and sum to <= 1'')
   \<and> sum_list (map py_val [PyInt 2, PyInt 2]) \<noteq> of_nat (ds_len (ListDataset [10, 20, 30 :: int]))
   \<and> PartitionedDataset_init (DatasetObj (ListDataset [10, 20, 30 :: int]))
        (Some (PyDict [(''a'', PyInt 2), (''b'', PyInt 2)])) =
       Inl (AssertionError ''Partition sizes must sum to dataset size'')
   \<and> sum_list (map py_val [PyFloat 2, PyFloat 2]) \<le> 2 ^ 53
   \<and> PartitionedDataset_init (DatasetObj (ListDataset [10, 20, 30 :: int]))
        (Some (PyDict [(''a'', PyFloat 2), (''b'', PyFloat 2)])) =
       Inl (AssertionError ''Partition sizes must sum to dataset size'')"
proof -
  let ?D = "ListDataset [10, 20, 30 :: int]"
  have len: "ds_len ?D = 3" by (simp add: ListDataset_def)
  have e1: "PartitionedDataset_init (DatasetObj ?D) (Some (PyDict [(''a'', PyInt 3)])) =
       Inl (AssertionError ''Partition specification must define at least two partitions'')"
    by (simp add: PartitionedDataset_init_def DatasetWrapper_init_ok)
  have e2: "PartitionedDataset_init (DatasetObj ?D)
        (Some (PyDict [(''a'', PyInt 3), (''b'', PyInt 0)])) =
       Inl (AssertionError ''Partitions must be non-empty'')"
    by (simp add: PartitionedDataset_init_def DatasetWrapper_init_ok py_lt_def)
  have e3: "PartitionedDataset_init (DatasetObj ?D)
        (Some (PyDict [(''a'', PyFloat (5 / 2)), (''b'', PyFloat (1 / 2))])) =
       Inl (AssertionError ''Partition sizes must be integer, or fractional and sum to <= 1'')"
    using five_halves_not_integer
    by (simp add: PartitionedDataset_init_def DatasetWrapper_init_ok py_lt_def len
        float_sizes_unchanged integral_iff)
  have e4: "PartitionedDataset_init (DatasetObj ?D)
        (Some (PyDict [(''a'', PyInt 2), (''b'', PyInt 2)])) =
       Inl (AssertionError ''Partition sizes must sum to dataset size'')"
    by (simp add: PartitionedDataset_init_def DatasetWrapper_init_ok py_lt_def len
        int_sizes_unchanged py_eq_def py_sum_def)
  have e5: "PartitionedDataset_init (DatasetObj ?D)
        (Some (PyDict [(''a'', PyFloat 2), (''b'', PyFloat 2)])) =
       Inl (AssertionError ''Partition sizes must sum to dataset size'')"
    by (simp add: PartitionedDataset_init_def DatasetWrapper_init_ok py_lt_def len
        float_sizes_unchanged py_eq_def)
  show ?thesis
    using e1 e2 e3 e4 e5 five_halves_not_integer
      partition_construction_validation [of "[(''a'', PyInt 3)]" ?D]
      partition_construction_validation [of "[(''a'', PyInt 3), (''b'', PyInt 0)]" ?D]
      partition_construction_validation
        [of "[(''a'', PyFloat (5 / 2)), (''b'', PyFloat (1 / 2))]" ?D]
      partition_construction_validation [of "[(''a'', PyInt 2), (''b'', PyInt 2)]" ?D]
      partition_construction_validation [of "[(''a'', PyFloat 2), (''b'', PyFloat 2)]" ?D]
    by (simp add: len)
qed

subsection \<open>The default and the fractional example\<close>

lemma default_checks:
  "py_min (map snd default_partitions) = Inr (float_literal (16 / 100))"
  "py_lt (PyInt 0) (float_literal (16 / 100))"
  "fractional_to_sizes 100 default_partitions =
     [(''train'', PyInt 64), (''val'', PyInt 16), (''test'', PyInt 20)]"
  by code_simp+

lemma fractional_checks:
  "py_min (map snd [(''train'', float_literal (7 / 10)), (''val'', float_literal (3 / 10))]) =
     Inr (float_literal (3 / 10))"
  "py_lt (PyInt 0) (float_literal (3 / 10))"
  "fractional_to_sizes 100 [(''train'', float_literal (7 / 10)), (''val'', float_literal (3 / 10))] =
     [(''train'', PyInt 70), (''val'', PyInt 30)]"
  by code_simp+

lemma init_default_100:
  "PartitionedDataset_init (DatasetObj \<lparr>ds_len = 100, ds_getitem = g\<rparr>) None =
     Inr \<lparr>priv_dataset = Some \<lparr>ds_len = 100, ds_getitem = g\<rparr>, priv_lock_dataset = Some True,
          priv_partition_names = [''train'', ''val'', ''test''],
          priv_partition_sizes = [64, 16, 20],
          priv_partition_offsets = [64, 80, 100],
          priv_active_partition_idx = Some 0\<rparr>"
proof -
  let ?d = "\<lparr>ds_len = 100, ds_getitem = g\<rparr>"
  let ?p2 = "[(''train'', PyInt 64), (''val'', PyInt 16), (''test'', PyInt 20)]"
  have "PartitionedDataset_init (DatasetObj ?d) None =
           PartitionedDataset_set_active_partition
             \<lparr>priv_dataset = Some ?d, priv_lock_dataset = Some True,
              priv_partition_names = map fst ?p2, priv_partition_sizes = pd_sizes ?p2,
              priv_partition_offsets = np_cumsum (pd_sizes ?p2),
              priv_active_partition_idx = None\<rparr>
             (if ''train'' \<in> set (map fst ?p2) then ''train'' else map fst ?p2 ! 0)"
  proof (rule pd_init_checks_pass [where ?p1.0 = default_partitions])
    show "(case None of None \<Rightarrow> PyDict default_partitions | Some a \<Rightarrow> a) =
            PyDict default_partitions" by simp
    show "2 \<le> length default_partitions" by (simp add: default_partitions_def)
    show "py_min (map snd default_partitions) = Inr (float_literal (16 / 100))"
      by (rule default_checks)
    show "py_lt (PyInt 0) (float_literal (16 / 100))"
      by (rule default_checks)
    show "fractional_to_sizes (ds_len ?d) default_partitions = ?p2"
      by (simp add: default_checks)
  qed (simp_all add: py_eq_def py_sum_def)
  then show ?thesis
    by (simp add: pd_sizes_def np_cumsum_def PartitionedDataset_set_active_partition_def)
qed

lemma init_fractional_100:
  "PartitionedDataset_init (DatasetObj \<lparr>ds_len = 100, ds_getitem = g\<rparr>)
     (Some (PyDict [(''train'', float_literal (7 / 10)), (''val'', float_literal (3 / 10))])) =
     Inr \<lparr>priv_dataset = Some \<lparr>ds_len = 100, ds_getitem = g\<rparr>, priv_lock_dataset = Some True,
          priv_partition_names = [''train'', ''val''],
          priv_partition_sizes = [70, 30],
          priv_partition_offsets = [70, 100],
          priv_active_partition_idx = Some 0\<rparr>"
proof -
  let ?d = "\<lparr>ds_len = 100, ds_getitem = g\<rparr>"
  let ?p1 = "[(''train'', float_literal (7 / 10)), (''val'', float_literal (3 / 10))]"
  let ?p2 = "[(''train'', PyInt 70), (''val'', PyInt 30)]"
  have "PartitionedDataset_init (DatasetObj ?d) (Some (PyDict ?p1)) =
           PartitionedDataset_set_active_partition
             \<lparr>priv_dataset = Some ?d, priv_lock_dataset = Some True,
              priv_partition_names = map fst ?p2, priv_partition_sizes = pd_sizes ?p2,
              priv_partition_offsets = np_cumsum (pd_sizes ?p2),
              priv_active_partition_idx = None\<rparr>
             (if ''train'' \<in> set (map fst ?p2) then ''train'' else map fst ?p2 ! 0)"
  proof (rule pd_init_checks_pass [where ?p1.0 = ?p1])
    show "(case Some (PyDict ?p1) of None \<Rightarrow> PyDict default_partitions | Some a \<Rightarrow> a) =
            PyDict ?p1" by simp
    show "py_min (map snd ?p1) = Inr (float_literal (3 / 10))"
      by (rule fractional_checks)
    show "py_lt (PyInt 0) (float_literal (3 / 10))"
      by (rule fractional_checks)
    show "fractional_to_sizes (ds_len ?d) ?p1 = ?p2"
      using fractional_checks(3) by simp
  qed (simp_all add: py_eq_def py_sum_def)
  then show ?thesis
    by (simp add: pd_sizes_def np_cumsum_def PartitionedDataset_set_active_partition_def)
qed

text \<open>
  C7. Over a dataset of 100 rows, construction without a specification gives the sizes
  train 64, val 16 and test 20, and the active partition is \<open>'train'\<close>. In general the
  active partition of a newly constructed view is \<open>'train'\<close> when the specification names it,
  and the first partition of the specification otherwise.
\<close>

theorem default_partitioning:
  "PartitionedDataset_init (DatasetObj \<lparr>ds_len = 100, ds_getitem = g\<rparr>) None =
     Inr \<lparr>priv_dataset = Some \<lparr>ds_len = 100, ds_getitem = g\<rparr>, priv_lock_dataset = Some True,
          priv_partition_names = [''train'', ''val'', ''test''],
          priv_partition_sizes = [64, 16, 20],
          priv_partition_offsets = [64, 80, 100],
          priv_active_partition_idx = Some 0\<rparr>
   \<and> PartitionedDataset_partitions
        \<lparr>priv_dataset = Some \<lparr>ds_len = 100, ds_getitem = g\<rparr>, priv_lock_dataset = Some True,
         priv_partition_names = [''train'', ''val'', ''test''],
         priv_partition_sizes = [64, 16, 20],
         priv_partition_offsets = [64, 80, 100],
         priv_active_partition_idx = Some 0\<rparr> =
       Inr [(''train'', 64), (''val'', 16), (''test'', 20)]
   \<and> PartitionedDataset_active_partition
        \<lparr>priv_dataset = Some \<lparr>ds_len = 100, ds_getitem = g\<rparr>, priv_lock_dataset = Some True,
         priv_partition_names = [''train'', ''val'', ''test''],
         priv_partition_sizes = [64, 16, 20],
         priv_partition_offsets = [64, 80, 100],
         priv_active_partition_idx = Some 0\<rparr> = Inr ''train''
   \<and> (PartitionedDataset_init (DatasetObj d) (Some (PyDict p)) = Inr v \<longrightarrow>
        PartitionedDataset_active_partition v =
          Inr (if ''train'' \<in> set (map fst p) then ''train'' else fst (hd p)))"
proof -
  have general: "PartitionedDataset_active_partition v =
          Inr (if ''train'' \<in> set (map fst p) then ''train'' else fst (hd p))"
    if ok: "PartitionedDataset_init (DatasetObj d) (Some (PyDict p)) = Inr v"
  proof -
    from pd_init_Inr [OF ok] obtain i where
      act: "priv_active_partition_idx v = Some (int i)"
      and names: "priv_partition_names v = map fst p"
      and i: "i < length (priv_partition_names v)"
      and chosen: "priv_partition_names v ! i =
               (if ''train'' \<in> set (priv_partition_names v) then ''train''
                else priv_partition_names v ! 0)"
      and len: "2 \<le> length (priv_partition_names v)"
      by auto
    from len names have "p \<noteq> []" by auto
    then have "map fst p ! 0 = fst (hd p)" by (simp add: hd_conv_nth)
    with chosen names have "priv_partition_names v ! i =
        (if ''train'' \<in> set (map fst p) then ''train'' else fst (hd p))" by simp
    with i show ?thesis
      by (simp add: PartitionedDataset_active_partition_def act py_getitem_def)
  qed
  show ?thesis
    using general
    by (simp add: init_default_100 PartitionedDataset_partitions_def enumerate_eq_zip
      PartitionedDataset_active_partition_def py_getitem_def)
qed

text \<open>
  A specification without \<open>'train'\<close>: the first partition becomes the active one.
\<close>

theorem default_partitioning_witness:
  "PartitionedDataset_init (DatasetObj (ListDataset [10, 20, 30 :: int]))
     (Some (PyDict [(''a'', PyInt 2), (''b'', PyInt 1)])) =
     Inr \<lparr>priv_dataset = Some (ListDataset [10, 20, 30]), priv_lock_dataset = Some True,
          priv_partition_names = [''a'', ''b''],
          priv_partition_sizes = [2, 1],
          priv_partition_offsets = [2, 3],
          priv_active_partition_idx = Some 0\<rparr>
   \<and> PartitionedDataset_active_partition
        \<lparr>priv_dataset = Some (ListDataset [10, 20, 30 :: int]), priv_lock_dataset = Some True,
         priv_partition_names = [''a'', ''b''],
         priv_partition_sizes = [2, 1],
         priv_partition_offsets = [2, 3],
         priv_active_partition_idx = Some 0\<rparr> = Inr ''a''"
proof -
  have init: "PartitionedDataset_init (DatasetObj (ListDataset [10, 20, 30 :: int]))
     (Some (PyDict [(''a'', PyInt 2), (''b'', PyInt 1)])) =
     Inr \<lparr>priv_dataset = Some (ListDataset [10, 20, 30]), priv_lock_dataset = Some True,
          priv_partition_names = [''a'', ''b''],
          priv_partition_sizes = [2, 1],
          priv_partition_offsets = [2, 3],
          priv_active_partition_idx = Some 0\<rparr>"
    by (simp add: PartitionedDataset_init_def DatasetWrapper_init_ok fractional_to_sizes_def
        py_sum_def py_le_def py_lt_def py_eq_def np_cumsum_def ListDataset_def py_getitem_def
        PartitionedDataset_set_active_partition_def)
  show ?thesis
    using init
      default_partitioning
        [where g = "py_getitem [10, 20, 30 :: int]"
           and d = "ListDataset [10, 20, 30 :: int]"
           and p = "[(''a'', PyInt 2), (''b'', PyInt 1)]"
           and v = "\<lparr>priv_dataset = Some (ListDataset [10, 20, 30 :: int]),
                     priv_lock_dataset = Some True,
                     priv_partition_names = [''a'', ''b''],
                     priv_partition_sizes = [2, 1],
                     priv_partition_offsets = [2, 3],
                     priv_active_partition_idx = Some 0\<rparr>"]
    by simp
qed

text \<open>
  C6. Over a dataset of 100 rows, the specification train 0.7, val 0.3 gives the sizes
  train 70 and val 30; after \<open>set_active_partition('val')\<close> the length is 30 and item 0
  is row 70 of the wrapped dataset.
\<close>

theorem fractional_partition_example:
  "PartitionedDataset_init (DatasetObj \<lparr>ds_len = 100, ds_getitem = g\<rparr>)
     (Some (PyDict [(''train'', float_literal (7 / 10)), (''val'', float_literal (3 / 10))])) =
     Inr \<lparr>priv_dataset = Some \<lparr>ds_len = 100, ds_getitem = g\<rparr>, priv_lock_dataset = Some True,
          priv_partition_names = [''train'', ''val''],
          priv_partition_sizes = [70, 30],
          priv_partition_offsets = [70, 100],
          priv_active_partition_idx = Some 0\<rparr>
   \<and> PartitionedDataset_partitions
        \<lparr>priv_dataset = Some \<lparr>ds_len = 100, ds_getitem = g\<rparr>, priv_lock_dataset = Some True,
         priv_partition_names = [''train'', ''val''],
         priv_partition_sizes = [70, 30],
         priv_partition_offsets = [70, 100],
         priv_active_partition_idx = Some 0\<rparr> = Inr [(''train'', 70), (''val'', 30)]
   \<and> PartitionedDataset_set_active_partition
        \<lparr>priv_dataset = Some \<lparr>ds_len = 100, ds_getitem = g\<rparr>, priv_lock_dataset = Some True,
         priv_partition_names = [''train'', ''val''],
         priv_partition_sizes = [70, 30],
         priv_partition_offsets = [70, 100],
         priv_active_partition_idx = Some 0\<rparr> ''val'' =
       Inr \<lparr>priv_dataset = Some \<lparr>ds_len = 100, ds_getitem = g\<rparr>, priv_lock_dataset = Some True,
            priv_partition_names = [''train'', ''val''],
            priv_partition_sizes = [70, 30],
            priv_partition_offsets = [70, 100],
            priv_active_partition_idx = Some 1\<rparr>
   \<and> PartitionedDataset_len
        \<lparr>priv_dataset = Some \<lparr>ds_len = 100, ds_getitem = g\<rparr>, priv_lock_dataset = Some True,
         priv_partition_names = [''train'', ''val''],
         priv_partition_sizes = [70, 30],
         priv_partition_offsets = [70, 100],
         priv_active_partition_idx = Some 1\<rparr> = Inr 30
   \<and> PartitionedDataset_getitem
        \<lparr>priv_dataset = Some \<lparr>ds_len = 100, ds_getitem = g\<rparr>, priv_lock_dataset = Some True,
         priv_partition_names = [''train'', ''val''],
         priv_partition_sizes = [70, 30],
         priv_partition_offsets = [70, 100],
         priv_active_partition_idx = Some 1\<rparr> 0 = g 70"
  by (simp add: init_fractional_100 PartitionedDataset_partitions_def enumerate_eq_zip
      PartitionedDataset_set_active_partition_def PartitionedDataset_len_def
      PartitionedDataset_getitem_def py_getitem_def DatasetWrapper_dataset_def)

subsection \<open>Float sizes whose sum is rounded\<close>

text \<open>
  Beyond \<open>2 ^ 53\<close> the sum of float sizes is no longer exact: \<open>2 ^ 53 + 1\<close> is not a
  double, and the tie is rounded to \<open>2 ^ 53\<close>.
\<close>

lemma big_float_checks:
  "py_min (map snd [(''a'', PyFloat 9007199254740992), (''b'', PyFloat 1)]) = Inr (PyFloat 1)"
  "py_lt (PyInt 0) (PyFloat 1)"
  "py_sum [PyFloat 9007199254740992, PyFloat 1] = PyFloat 9007199254740992"
  by code_simp+

lemma big_float_sizes_unchanged:
  "fractional_to_sizes n [(''a'', PyFloat 9007199254740992), (''b'', PyFloat 1)] =
     [(''a'', PyFloat 9007199254740992), (''b'', PyFloat 1)]"
  using big_float_checks(3) by (simp add: fractional_to_sizes_def py_le_def)

text \<open>
  C8. Construction should raise \<open>AssertionError\<close> whenever the resulting integer sizes do
  not add up to \<open>len(dataset)\<close>, as the message of the last check says. The source
  compares \<open>sum(partitions.values())\<close>, a sum of doubles when the sizes are floats: over
  a dataset of \<open>2 ^ 53\<close> rows the sizes \<open>9007199254740992.0\<close> and \<open>1.0\<close> pass every check,
  and the view holds the sizes \<open>2 ^ 53\<close> and 1, whose sum is one more than the length.
\<close>

theorem partition_sum_check_rounds:
  "PartitionedDataset_init (DatasetObj \<lparr>ds_len = 9007199254740992, ds_getitem = g\<rparr>)
     (Some (PyDict [(''a'', PyFloat 9007199254740992), (''b'', PyFloat 1)])) =
     Inr \<lparr>priv_dataset = Some \<lparr>ds_len = 9007199254740992, ds_getitem = g\<rparr>,
          priv_lock_dataset = Some True,
          priv_partition_names = [''a'', ''b''],
          priv_partition_sizes = [9007199254740992, 1],
          priv_partition_offsets = [9007199254740992, 9007199254740993],
          priv_active_partition_idx = Some 0\<rparr>
   \<and> sum_list [9007199254740992, 1 :: int] = 9007199254740993
   \<and> int (ds_len \<lparr>ds_len = 9007199254740992, ds_getitem = g\<rparr>) = 9007199254740992
   \<and> (9007199254740992 :: nat) = 2 ^ 53"
proof -
  let ?d = "\<lparr>ds_len = 9007199254740992, ds_getitem = g\<rparr>"
  let ?p = "[(''a'', PyFloat 9007199254740992), (''b'', PyFloat 1)]"
  have "PartitionedDataset_init (DatasetObj ?d) (Some (PyDict ?p)) =
           PartitionedDataset_set_active_partition
             \<lparr>priv_dataset = Some ?d, priv_lock_dataset = Some True,
              priv_partition_names = map fst ?p, priv_partition_sizes = pd_sizes ?p,
              priv_partition_offsets = np_cumsum (pd_sizes ?p),
              priv_active_partition_idx = None\<rparr>
             (if ''train'' \<in> set (map fst ?p) then ''train'' else map fst ?p ! 0)"
  proof (rule pd_init_checks_pass [where ?p1.0 = ?p])
    show "(case Some (PyDict ?p) of None \<Rightarrow> PyDict default_partitions | Some a \<Rightarrow> a) =
            PyDict ?p" by simp
    show "py_min (map snd ?p) = Inr (PyFloat 1)" by (rule big_float_checks)
    show "py_lt (PyInt 0) (PyFloat 1)" by (rule big_float_checks)
    show "fractional_to_sizes (ds_len ?d) ?p = ?p" by (rule big_float_sizes_unchanged)
    show "py_eq (py_sum (map snd ?p)) (PyInt (int (ds_len ?d)))"
      using big_float_checks(3) by (simp add: py_eq_def)
  qed (simp_all add: py_eq_def)
  then show ?thesis
    by (simp add: pd_sizes_def np_cumsum_def PartitionedDataset_set_active_partition_def)
qed

text \<open>
  The check that no partition is empty is made on the values of the specification, before
  fractions are converted: a fraction that rounds to 0 rows passes it.
\<close>

lemma rounded_checks:
  "py_min (map snd [(''train'', float_literal (999 / 1000)), (''val'', float_literal (1 / 1000))]) =
     Inr (float_literal (1 / 1000))"
  "py_lt (PyInt 0) (float_literal (1 / 1000))"
  "fractional_to_sizes 100
     [(''train'', float_literal (999 / 1000)), (''val'', float_literal (1 / 1000))] =
     [(''train'', PyInt 100), (''val'', PyInt 0)]"
  by code_simp+

lemma rounded_zero_size_accepted:
  "PartitionedDataset_init (DatasetObj \<lparr>ds_len = 100, ds_getitem = g\<rparr>)
     (Some (PyDict [(''train'', float_literal (999 / 1000)), (''val'', float_literal (1 / 1000))])) =
     Inr \<lparr>priv_dataset = Some \<lparr>ds_len = 100, ds_getitem = g\<rparr>, priv_lock_dataset = Some True,
          priv_partition_names = [''train'', ''val''],
          priv_partition_sizes = [100, 0],
          priv_partition_offsets = [100, 100],
          priv_active_partition_idx = Some 0\<rparr>"
proof -
  let ?d = "\<lparr>ds_len = 100, ds_getitem = g\<rparr>"
  let ?p1 = "[(''train'', float_literal (999 / 1000)), (''val'', float_literal (1 / 1000))]"
  let ?p2 = "[(''train'', PyInt 100), (''val'', PyInt 0)]"
  have "PartitionedDataset_init (DatasetObj ?d) (Some (PyDict ?p1)) =
           PartitionedDataset_set_active_partition
             \<lparr>priv_dataset = Some ?d, priv_lock_dataset = Some True,
              priv_partition_names = map fst ?p2, priv_partition_sizes = pd_sizes ?p2,
              priv_partition_offsets = np_cumsum (pd_sizes ?p2),
              priv_active_partition_idx = None\<rparr>
             (if ''train'' \<in> set (map fst ?p2) then ''train'' else map fst ?p2 ! 0)"
  proof (rule pd_init_checks_pass [where ?p1.0 = ?p1])
    show "(case Some (PyDict ?p1) of None \<Rightarrow> PyDict default_partitions | Some a \<Rightarrow> a) =
            PyDict ?p1" by simp
    show "py_min (map snd ?p1) = Inr (float_literal (1 / 1000))" by (rule rounded_checks)
    show "py_lt (PyInt 0) (float_literal (1 / 1000))" by (rule rounded_checks)
    show "fractional_to_sizes (ds_len ?d) ?p1 = ?p2" using rounded_checks(3) by simp
  qed (simp_all add: py_eq_def py_sum_def)
  then show ?thesis
    by (simp add: pd_sizes_def np_cumsum_def PartitionedDataset_set_active_partition_def)
qed


section \<open>PartitionedDataset: translation of indices\<close>

text \<open>
  For an active partition other than the first, \<open>__getitem__\<close> adds the sizes of the
  partitions before it to the index.
\<close>

lemma pd_getitem_later:
  assumes offs: "priv_partition_offsets v = np_cumsum (priv_partition_sizes v)"
    and act: "priv_active_partition_idx v = Some (int k)"
    and k: "0 < k" "k < length (priv_partition_sizes v)"
    and d: "priv_dataset v = Some d"
    and idx: "idx < priv_partition_sizes v ! k"
  shows "PartitionedDataset_getitem v idx =
           ds_getitem d (sum_list (take k (priv_partition_sizes v)) + idx)"
proof -
  have sz: "py_getitem (priv_partition_sizes v) (int k) = Inr (priv_partition_sizes v ! k)"
    using k by (simp add: py_getitem_def)
  have "nat (int k - 1) = k - 1" by simp
  moreover have "k - 1 < length (priv_partition_sizes v)" using k by simp
  ultimately have off: "py_getitem (priv_partition_offsets v) (int k - 1) =
      Inr (sum_list (take k (priv_partition_sizes v)))"
    using k cumsum_from_nth [of "k - 1" "priv_partition_sizes v" 0]
    by (simp add: py_getitem_def offs np_cumsum_def)
  show ?thesis
    using idx by (simp add: PartitionedDataset_getitem_def act sz off d DatasetWrapper_dataset_def)
qed

text \<open>
  For the first partition the offset is read at position \<open>0 - 1 = -1\<close> of the running
  sums, which is their last entry, the sum of all sizes: the index is moved past the end
  of the wrapped dataset instead of being left as it is.
\<close>

lemma pd_getitem_first:
  assumes offs: "priv_partition_offsets v = np_cumsum (priv_partition_sizes v)"
    and act: "priv_active_partition_idx v = Some 0"
    and ne: "priv_partition_sizes v \<noteq> []"
    and d: "priv_dataset v = Some d"
    and idx: "idx < priv_partition_sizes v ! 0"
  shows "PartitionedDataset_getitem v idx =
           ds_getitem d (sum_list (priv_partition_sizes v) + idx)"
proof -
  let ?n = "length (priv_partition_sizes v)"
  have pos: "0 < ?n" using ne by simp
  have sz: "py_getitem (priv_partition_sizes v) 0 = Inr (priv_partition_sizes v ! 0)"
    using ne by (simp add: py_getitem_def)
  have "nat (- 1 + int ?n) = ?n - 1" by simp
  then have off: "py_getitem (priv_partition_offsets v) (- 1) =
      Inr (sum_list (priv_partition_sizes v))"
    using pos cumsum_from_nth [of "?n - 1" "priv_partition_sizes v" 0]
    by (simp add: py_getitem_def offs np_cumsum_def)
  show ?thesis
    using idx by (simp add: PartitionedDataset_getitem_def act sz off d DatasetWrapper_dataset_def)
qed

text \<open>
  C1. With partition \<open>k\<close> active, item \<open>local\<close> should be row \<open>start_k + local\<close> of the wrapped
  dataset, and so row \<open>local\<close> for the first partition. The source does not do this for the
  first partition: over a dataset of 100 rows with the default partitions, where
  \<open>'train'\<close> is active after construction, item 0 of the view asks the wrapped dataset for
  row 100; a list-backed dataset answers with \<open>IndexError\<close>, although its row 0 exists.
\<close>

theorem partition_translation_first_partition:
  "PartitionedDataset_init (DatasetObj \<lparr>ds_len = 100, ds_getitem = g\<rparr>) None =
     Inr \<lparr>priv_dataset = Some \<lparr>ds_len = 100, ds_getitem = g\<rparr>, priv_lock_dataset = Some True,
          priv_partition_names = [''train'', ''val'', ''test''],
          priv_partition_sizes = [64, 16, 20],
          priv_partition_offsets = [64, 80, 100],
          priv_active_partition_idx = Some 0\<rparr>
   \<and> PartitionedDataset_getitem
        \<lparr>priv_dataset = Some \<lparr>ds_len = 100, ds_getitem = g\<rparr>, priv_lock_dataset = Some True,
         priv_partition_names = [''train'', ''val'', ''test''],
         priv_partition_sizes = [64, 16, 20],
         priv_partition_offsets = [64, 80, 100],
         priv_active_partition_idx = Some 0\<rparr> 0 = g 100
   \<and> ds_getitem (ListDataset (map int [0..<100])) 0 = Inr 0
   \<and> ds_getitem (ListDataset (map int [0..<100])) 100 = Inl IndexError
   \<and> ds_len (ListDataset (map int [0..<100])) = 100"
  by (simp add: init_default_100 PartitionedDataset_getitem_def py_getitem_def
      DatasetWrapper_dataset_def ListDataset_def)

section \<open>ResampledDataset: samples and items\<close>

lemma foldl_min_lower: "foldl min (a::int) xs \<le> a \<and> (\<forall>x\<in>set xs. foldl min a xs \<le> x)"
proof (induction xs arbitrary: a)
  case Nil
  show ?case by simp
next
  case (Cons y ys)
  have "foldl min (min a y) ys \<le> min a y" using Cons.IH by blast
  moreover have "\<forall>x\<in>set ys. foldl min (min a y) ys \<le> x" using Cons.IH by blast
  ultimately show ?case by auto
qed

lemma foldl_min_member: "foldl min (a::int) xs \<in> insert a (set xs)"
  by (induction xs arbitrary: a) (auto simp: min_def)

lemma foldl_max_upper: "a \<le> foldl max (a::int) xs \<and> (\<forall>x\<in>set xs. x \<le> foldl max a xs)"
proof (induction xs arbitrary: a)
  case Nil
  show ?case by simp
next
  case (Cons y ys)
  have "max a y \<le> foldl max (max a y) ys" using Cons.IH by blast
  moreover have "\<forall>x\<in>set ys. x \<le> foldl max (max a y) ys" using Cons.IH by blast
  ultimately show ?case by auto
qed

lemma foldl_max_member: "foldl max (a::int) xs \<in> insert a (set xs)"
  by (induction xs arbitrary: a) (auto simp: max_def)

lemma np_min_Inr: "np_min xs = Inr m \<Longrightarrow> m \<in> set xs \<and> (\<forall>x\<in>set xs. m \<le> x)"
  using foldl_min_lower foldl_min_member by (cases xs) fastforce+

lemma np_max_Inr: "np_max xs = Inr m \<Longrightarrow> m \<in> set xs \<and> (\<forall>x\<in>set xs. x \<le> m)"
  using foldl_max_upper foldl_max_member by (cases xs) fastforce+

lemma np_min_nonempty: "xs \<noteq> [] \<Longrightarrow> \<exists>m. np_min xs = Inr m"
  by (cases xs) simp_all

lemma np_max_nonempty: "xs \<noteq> [] \<Longrightarrow> \<exists>m. np_max xs = Inr m"
  by (cases xs) simp_all

lemma np_flatten_arange: "np_flatten (np_arange n) = map int [0..<n]"
  by (simp add: np_arange_def comp_def)

lemma samples_setter_rejects:
  assumes d: "priv_dataset self = Some d"
    and bad: "\<exists>s\<in>set (np_flatten a). s < 0 \<or> int (ds_len d) \<le> s"
  shows "ResampledDataset_samples_setter self (NdArray a) \<in>
           {Inl (AssertionError ''Sample indices must be non-negative''),
            Inl (AssertionError ''Sample indices must be found in original dataset'')}"
proof -
  from bad have ne: "np_flatten a \<noteq> []" by auto
  obtain lo where lo: "np_min (np_flatten a) = Inr lo" using np_min_nonempty [OF ne] by blast
  obtain hi where hi: "np_max (np_flatten a) = Inr hi" using np_max_nonempty [OF ne] by blast
  show ?thesis
  proof (cases "0 \<le> lo")
    case False
    then show ?thesis
      by (simp add: ResampledDataset_samples_setter_def lo)
  next
    case True
    with np_min_Inr [OF lo] have "\<forall>s\<in>set (np_flatten a). 0 \<le> s" by fastforce
    with bad obtain s where "s \<in> set (np_flatten a)" "int (ds_len d) \<le> s" by fastforce
    with np_max_Inr [OF hi] have "\<not> hi < int (ds_len d)" by fastforce
    with True show ?thesis
      by (simp add: ResampledDataset_samples_setter_def lo hi d DatasetWrapper_dataset_def)
  qed
qed

lemma samples_setter_accepts:
  assumes d: "priv_dataset self = Some d"
    and ok: "ResampledDataset_samples_setter self (NdArray a) = Inr self'"
  shows "self' = self\<lparr>priv_samples := Some (np_flatten a)\<rparr>
         \<and> (\<forall>s\<in>set (np_flatten a). 0 \<le> s \<and> s < int (ds_len d))"
proof -
  from ok obtain lo hi where lo: "np_min (np_flatten a) = Inr lo" and hi: "np_max (np_flatten a) = Inr hi"
    and rng: "0 \<le> lo" "hi < int (ds_len d)" and self': "self' = self\<lparr>priv_samples := Some (np_flatten a)\<rparr>"
    using d by (auto simp: ResampledDataset_samples_setter_def DatasetWrapper_dataset_def Let_def split: sum.splits if_splits)
  from np_min_Inr [OF lo] np_max_Inr [OF hi] rng
  have "\<forall>s\<in>set (np_flatten a). 0 \<le> s \<and> s < int (ds_len d)" by fastforce
  with self' show ?thesis by simp
qed

lemma rd_init_unfold:
  "ResampledDataset_init (DatasetObj d) samples =
     ResampledDataset_samples_setter
       \<lparr>priv_dataset = Some d, priv_lock_dataset = Some True, priv_samples = None\<rparr>
       (case samples of Some s \<Rightarrow> s | None \<Rightarrow> NdArray (np_arange (ds_len d)))"
  by (simp add: ResampledDataset_init_def DatasetWrapper_init_ok DatasetWrapper_dataset_def split: option.split)

lemma rd_getitem_unfold:
  assumes "priv_samples v = Some samples" and "priv_dataset v = Some d"
  shows "ResampledDataset_getitem v i =
           (case py_getitem samples i of Inl e \<Rightarrow> Inl e | Inr j \<Rightarrow> ds_getitem d j)"
  using assms
  by (simp add: ResampledDataset_getitem_def DatasetWrapper_dataset_def split: sum.split)

lemma rd_init_default_nonempty:
  assumes "0 < ds_len d"
  shows "ResampledDataset_init (DatasetObj d) None =
           Inr \<lparr>priv_dataset = Some d, priv_lock_dataset = Some True,
                priv_samples = Some (map int [0..<ds_len d])\<rparr>"
proof -
  obtain n where n: "ds_len d = Suc n" using assms by (cases "ds_len d") auto
  have ne: "map int [0..<ds_len d] \<noteq> []" using assms by simp
  obtain lo where lo: "np_min (map int [0..<ds_len d]) = Inr lo"
    using np_min_nonempty [OF ne] by blast
  obtain hi where hi: "np_max (map int [0..<ds_len d]) = Inr hi"
    using np_max_nonempty [OF ne] by blast
  have "0 \<le> lo" using np_min_Inr [OF lo] by auto
  moreover have "hi < int (ds_len d)" using np_max_Inr [OF hi] by auto
  ultimately show ?thesis
    by (simp add: rd_init_unfold ResampledDataset_samples_setter_def np_flatten_arange
        lo hi DatasetWrapper_dataset_def)
qed

text \<open>
  C9. Constructing a resampled dataset with an array of samples, or assigning an array to
  \<open>samples\<close> later, flattens the array in row-major order, raises \<open>AssertionError\<close> if an
  entry is negative or not below \<open>len(dataset)\<close>, and on success stores the flattened
  entries, each of which is at least 0 and below \<open>len(dataset)\<close>.
\<close>

theorem sample_list_validation:
  "(priv_dataset self = Some d \<longrightarrow>
      (\<exists>s\<in>set (np_flatten a). s < 0 \<or> int (ds_len d) \<le> s) \<longrightarrow>
      ResampledDataset_samples_setter self (NdArray a) \<in>
        {Inl (AssertionError ''Sample indices must be non-negative''),
         Inl (AssertionError ''Sample indices must be found in original dataset'')})
   \<and> ((\<exists>s\<in>set (np_flatten a). s < 0 \<or> int (ds_len d) \<le> s) \<longrightarrow>
      ResampledDataset_init (DatasetObj d) (Some (NdArray a)) \<in>
        {Inl (AssertionError ''Sample indices must be non-negative''),
         Inl (AssertionError ''Sample indices must be found in original dataset'')})
   \<and> (priv_dataset self = Some d \<longrightarrow>
      ResampledDataset_samples_setter self (NdArray a) = Inr self' \<longrightarrow>
      ResampledDataset_samples self' = Some (np_flatten a)
      \<and> (\<forall>s\<in>set (np_flatten a). 0 \<le> s \<and> s < int (ds_len d)))
   \<and> (ResampledDataset_init (DatasetObj d) (Some (NdArray a)) = Inr v \<longrightarrow>
      ResampledDataset_samples v = Some (np_flatten a)
      \<and> (\<forall>s\<in>set (np_flatten a). 0 \<le> s \<and> s < int (ds_len d)))"
proof (intro conjI impI)
  assume "priv_dataset self = Some d"
    and "\<exists>s\<in>set (np_flatten a). s < 0 \<or> int (ds_len d) \<le> s"
  then show "ResampledDataset_samples_setter self (NdArray a) \<in>
        {Inl (AssertionError ''Sample indices must be non-negative''),
         Inl (AssertionError ''Sample indices must be found in original dataset'')}"
    by (rule samples_setter_rejects)
next
  assume bad: "\<exists>s\<in>set (np_flatten a). s < 0 \<or> int (ds_len d) \<le> s"
  show "ResampledDataset_init (DatasetObj d) (Some (NdArray a)) \<in>
        {Inl (AssertionError ''Sample indices must be non-negative''),
         Inl (AssertionError ''Sample indices must be found in original dataset'')}"
    unfolding rd_init_unfold using samples_setter_rejects [OF _ bad] by simp
next
  assume d: "priv_dataset self = Some d"
    and ok: "ResampledDataset_samples_setter self (NdArray a) = Inr self'"
  from samples_setter_accepts [OF d ok]
  show "ResampledDataset_samples self' = Some (np_flatten a)"
    and "\<forall>s\<in>set (np_flatten a). 0 \<le> s \<and> s < int (ds_len d)"
    by (simp_all add: ResampledDataset_samples_def)
next
  assume "ResampledDataset_init (DatasetObj d) (Some (NdArray a)) = Inr v"
  then have ok: "ResampledDataset_samples_setter
       \<lparr>priv_dataset = Some d, priv_lock_dataset = Some True, priv_samples = None\<rparr>
       (NdArray a) = Inr v"
    by (simp add: rd_init_unfold)
  from samples_setter_accepts [OF _ ok]
  show "ResampledDataset_samples v = Some (np_flatten a)"
    and "\<forall>s\<in>set (np_flatten a). 0 \<le> s \<and> s < int (ds_len d)"
    by (simp_all add: ResampledDataset_samples_def)
qed

text \<open>
  A two-dimensional array with an entry out of range, one with all entries in range, and
  a negative entry assigned later.
\<close>

theorem sample_list_validation_witness:
  "(\<exists>s\<in>set (np_flatten (Array [Array [Scalar 0, Scalar 3], Array [Scalar 1, Scalar 1]])).
       s < 0 \<or> int (ds_len (ListDataset [10, 20, 30 :: int])) \<le> s)
   \<and> ResampledDataset_init (DatasetObj (ListDataset [10, 20, 30 :: int]))
        (Some (NdArray (Array [Array [Scalar 0, Scalar 3], Array [Scalar 1, Scalar 1]]))) =
       Inl (AssertionError ''Sample indices must be found in original dataset'')
   \<and> ResampledDataset_init (DatasetObj (ListDataset [10, 20, 30 :: int]))
        (Some (NdArray (Array [Array [Scalar 2, Scalar 0], Array [Scalar 1, Scalar 1]]))) =
       Inr \<lparr>priv_dataset = Some (ListDataset [10, 20, 30]), priv_lock_dataset = Some True,
            priv_samples = Some [2, 0, 1, 1]\<rparr>
   \<and> ResampledDataset_samples_setter
        \<lparr>priv_dataset = Some (ListDataset [10, 20, 30 :: int]), priv_lock_dataset = Some True,
         priv_samples = Some [2, 0, 1, 1]\<rparr> (NdArray (Array [Scalar (- 1)])) =
       Inl (AssertionError ''Sample indices must be non-negative'')
   \<and> ResampledDataset_samples
        \<lparr>priv_dataset = Some (ListDataset [10, 20, 30 :: int]), priv_lock_dataset = Some True,
         priv_samples = Some [2, 0, 1, 1]\<rparr> = Some [2, 0, 1, 1]"
  using
    sample_list_validation
      [of "\<lparr>priv_dataset = Some (ListDataset [10, 20, 30 :: int]),
            priv_lock_dataset = Some True, priv_samples = Some [2, 0, 1, 1]\<rparr>"
          "ListDataset [10, 20, 30]"
          "Array [Array [Scalar 0, Scalar 3], Array [Scalar 1, Scalar 1]]"]
    sample_list_validation
      [of "\<lparr>priv_dataset = Some (ListDataset [10, 20, 30 :: int]),
            priv_lock_dataset = Some True, priv_samples = Some [2, 0, 1, 1]\<rparr>"
          "ListDataset [10, 20, 30]"
          "Array [Array [Scalar 2, Scalar 0], Array [Scalar 1, Scalar 1]]"
          "\<lparr>priv_dataset = Some (ListDataset [10, 20, 30 :: int]),
            priv_lock_dataset = Some True, priv_samples = Some [2, 0, 1, 1]\<rparr>"
          "\<lparr>priv_dataset = Some (ListDataset [10, 20, 30 :: int]),
            priv_lock_dataset = Some True, priv_samples = Some [2, 0, 1, 1]\<rparr>"]
  by (simp add: rd_init_unfold ResampledDataset_samples_setter_def ListDataset_def
      DatasetWrapper_dataset_def ResampledDataset_samples_def)

text \<open>
  Translation and the default samples. In every resampled dataset, item \<open>i\<close> with \<open>0 \<le> i < len(samples)\<close> is row
  \<open>samples[i]\<close> of the wrapped dataset. A view constructed without samples holds the
  samples \<open>0, 1, \<dots>, len(dataset) - 1\<close>, has the length of the wrapped dataset, and its item
  \<open>i\<close> is row \<open>i\<close>; over a dataset that is not empty this construction succeeds.
\<close>

lemma resample_translation_and_identity:
  "(priv_samples v = Some samples \<longrightarrow> priv_dataset v = Some d \<longrightarrow>
      0 \<le> i \<longrightarrow> i < int (length samples) \<longrightarrow>
      ResampledDataset_getitem v i = ds_getitem d (samples ! nat i))
   \<and> (ResampledDataset_init (DatasetObj d) None = Inr v0 \<longrightarrow>
        ResampledDataset_samples v0 = Some (map int [0..<ds_len d])
        \<and> ResampledDataset_len v0 = Inr (int (ds_len d))
        \<and> (\<forall>j. 0 \<le> j \<and> j < int (ds_len d) \<longrightarrow>
               ResampledDataset_getitem v0 j = ds_getitem d j))
   \<and> (0 < ds_len d \<longrightarrow> (\<exists>v1. ResampledDataset_init (DatasetObj d) None = Inr v1))"
proof (intro conjI impI)
  assume "priv_samples v = Some samples" "priv_dataset v = Some d"
    "0 \<le> i" "i < int (length samples)"
  then show "ResampledDataset_getitem v i = ds_getitem d (samples ! nat i)"
    by (simp add: rd_getitem_unfold py_getitem_inside)
next
  assume "0 < ds_len d"
  then show "\<exists>v1. ResampledDataset_init (DatasetObj d) None = Inr v1"
    by (simp add: rd_init_default_nonempty)
next
  assume ok: "ResampledDataset_init (DatasetObj d) None = Inr v0"
  let ?self = "\<lparr>priv_dataset = Some d, priv_lock_dataset = Some True, priv_samples = None\<rparr>"
  from ok have "ResampledDataset_samples_setter ?self (NdArray (np_arange (ds_len d))) = Inr v0"
    by (simp add: rd_init_unfold)
  then have v0: "v0 = ?self\<lparr>priv_samples := Some (map int [0..<ds_len d])\<rparr>"
    using samples_setter_accepts [of ?self d "np_arange (ds_len d)" v0]
    by (simp add: np_flatten_arange)
  show "ResampledDataset_samples v0 = Some (map int [0..<ds_len d])"
    by (simp add: v0 ResampledDataset_samples_def)
  show "ResampledDataset_len v0 = Inr (int (ds_len d))"
    by (simp add: v0 ResampledDataset_len_def)
  show "\<forall>j. 0 \<le> j \<and> j < int (ds_len d) \<longrightarrow>
          ResampledDataset_getitem v0 j = ds_getitem d j"
  proof (intro allI impI)
    fix j :: int
    assume j: "0 \<le> j \<and> j < int (ds_len d)"
    have s: "priv_samples v0 = Some (map int [0..<ds_len d])" and dd: "priv_dataset v0 = Some d"
      by (simp_all add: v0)
    from j have "nat j < ds_len d" by (simp add: nat_less_iff)
    then have "map int [0..<ds_len d] ! nat j = j" using j by simp
    with j show "ResampledDataset_getitem v0 j = ds_getitem d j"
      by (simp add: rd_getitem_unfold [OF s dd] py_getitem_inside)
  qed
qed

text \<open>
  Samples with a repetition, and the default samples over three rows.
\<close>

lemma resample_translation_and_identity_witness:
  "priv_samples \<lparr>priv_dataset = Some (ListDataset [10, 20, 30 :: int]),
                  priv_lock_dataset = Some True, priv_samples = Some [2, 0, 0]\<rparr> = Some [2, 0, 0]
   \<and> (0::int) \<le> 1 \<and> (1::int) < int (length [2, 0, 0 :: int])
   \<and> ResampledDataset_getitem
         \<lparr>priv_dataset = Some (ListDataset [10, 20, 30 :: int]),
          priv_lock_dataset = Some True, priv_samples = Some [2, 0, 0]\<rparr> 1 = Inr 10
   \<and> ResampledDataset_init (DatasetObj (ListDataset [10, 20, 30 :: int])) None =
         Inr \<lparr>priv_dataset = Some (ListDataset [10, 20, 30]),
              priv_lock_dataset = Some True, priv_samples = Some [0, 1, 2]\<rparr>
   \<and> ResampledDataset_len
         \<lparr>priv_dataset = Some (ListDataset [10, 20, 30 :: int]),
          priv_lock_dataset = Some True, priv_samples = Some [0, 1, 2]\<rparr> = Inr 3
   \<and> ResampledDataset_getitem
         \<lparr>priv_dataset = Some (ListDataset [10, 20, 30 :: int]),
          priv_lock_dataset = Some True, priv_samples = Some [0, 1, 2]\<rparr> 2 = Inr 30
   \<and> 0 < ds_len (ListDataset [10, 20, 30 :: int])"
proof -
  have init: "ResampledDataset_init (DatasetObj (ListDataset [10, 20, 30 :: int])) None =
         Inr \<lparr>priv_dataset = Some (ListDataset [10, 20, 30]),
              priv_lock_dataset = Some True, priv_samples = Some [0, 1, 2]\<rparr>"
    by (simp add: rd_init_unfold ResampledDataset_samples_setter_def np_arange_def
        DatasetWrapper_dataset_def ListDataset_def upt_rec_numeral)
  show ?thesis
    using init
      resample_translation_and_identity
        [of "\<lparr>priv_dataset = Some (ListDataset [10, 20, 30 :: int]),
              priv_lock_dataset = Some True, priv_samples = Some [2, 0, 0]\<rparr>"
            "[2, 0, 0]" "ListDataset [10, 20, 30]" 1
            "\<lparr>priv_dataset = Some (ListDataset [10, 20, 30 :: int]),
              priv_lock_dataset = Some True, priv_samples = Some [0, 1, 2]\<rparr>"]
    by (simp add: ListDataset_def py_getitem_def)
qed

text \<open>
  C4. Construction without samples should give a view with the samples
  \<open>0, 1, \<dots>, len(dataset) - 1\<close>, of the length of the wrapped dataset. The source does not
  do this over an empty dataset: the default samples \<open>np.arange(0)\<close> have no entries, and
  \<open>samples.min()\<close> in the setter raises \<open>ValueError\<close>, so that no view is constructed.
\<close>

theorem default_resample_over_empty_dataset:
  "ds_len (ListDataset ([] :: 'r list)) = 0
   \<and> ResampledDataset_init (DatasetObj (ListDataset ([] :: 'r list))) None = Inl ValueError
   \<and> ResampledDataset_init (DatasetObj \<lparr>ds_len = 0, ds_getitem = g\<rparr>) None = Inl ValueError"
  by (simp add: rd_init_unfold ResampledDataset_samples_setter_def np_arange_def ListDataset_def)

text \<open>
  C3. An empty array of samples should be accepted and give a view of length 0. The
  source does not accept it: \<open>samples.min()\<close> raises \<open>ValueError\<close> on an array without
  entries, in the constructor and in the setter alike, and so does the default
  construction over an empty dataset.
\<close>

theorem empty_samples_rejected:
  "ResampledDataset_init (DatasetObj d) (Some (NdArray (Array []))) = Inl ValueError
   \<and> ResampledDataset_samples_setter self (NdArray (Array [])) = Inl ValueError
   \<and> ResampledDataset_init (DatasetObj \<lparr>ds_len = 0, ds_getitem = g\<rparr>) None = Inl ValueError"
  by (simp add: rd_init_unfold ResampledDataset_samples_setter_def np_arange_def)

section \<open>Bounds of item access\<close>

text \<open>
  The statement that a resampled dataset rejects every negative index does not hold:
  index \<open>-1\<close> is answered with the row of the last sample.
\<close>

theorem resample_negative_index_accepted:
  "ResampledDataset_init (DatasetObj (ListDataset [10, 20, 30 :: int])) None =
     Inr \<lparr>priv_dataset = Some (ListDataset [10, 20, 30]), priv_lock_dataset = Some True,
          priv_samples = Some [0, 1, 2]\<rparr>
   \<and> ResampledDataset_getitem
        \<lparr>priv_dataset = Some (ListDataset [10, 20, 30 :: int]), priv_lock_dataset = Some True,
         priv_samples = Some [0, 1, 2]\<rparr> (- 1) = Inr 30"
  by (simp add: rd_init_unfold ResampledDataset_samples_setter_def np_arange_def
      DatasetWrapper_dataset_def ListDataset_def upt_rec_numeral ResampledDataset_getitem_def
      py_getitem_def)

text \<open>
  C2, as the source has it. In both views, item \<open>i\<close> raises \<open>IndexError\<close> whenever \<open>i\<close> is
  at least the length of the view (the size of the active partition; the number of
  samples). In a resampled dataset a negative index is not rejected by the view: for
  \<open>-len(samples) \<le> i < 0\<close> item \<open>i\<close> is the row of sample \<open>len(samples) + i\<close>, counted from
  the end as numpy indexes, and only \<open>i < -len(samples)\<close> raises \<open>IndexError\<close>.
\<close>

theorem item_at_bounds:
  "(priv_active_partition_idx p = Some a \<longrightarrow>
      py_getitem (priv_partition_sizes p) a = Inr sz \<longrightarrow> sz \<le> idx \<longrightarrow>
      PartitionedDataset_len p = Inr sz \<and> PartitionedDataset_getitem p idx = Inl IndexError)
   \<and> (priv_samples r = Some samples \<longrightarrow>
      int (length samples) \<le> idx \<or> idx < - int (length samples) \<longrightarrow>
      ResampledDataset_len r = Inr (int (length samples))
      \<and> ResampledDataset_getitem r idx = Inl IndexError)
   \<and> (priv_samples r = Some samples \<longrightarrow> priv_dataset r = Some d \<longrightarrow>
      - int (length samples) \<le> idx \<longrightarrow> idx < 0 \<longrightarrow>
      ResampledDataset_getitem r idx = ds_getitem d (samples ! nat (idx + int (length samples))))"
proof (intro conjI impI)
  assume "priv_active_partition_idx p = Some a"
    and "py_getitem (priv_partition_sizes p) a = Inr sz" and "sz \<le> idx"
  then show "PartitionedDataset_len p = Inr sz"
    and "PartitionedDataset_getitem p idx = Inl IndexError"
    by (simp_all add: PartitionedDataset_len_def PartitionedDataset_getitem_def)
next
  assume s: "priv_samples r = Some samples"
    and out: "int (length samples) \<le> idx \<or> idx < - int (length samples)"
  show "ResampledDataset_len r = Inr (int (length samples))"
    by (simp add: ResampledDataset_len_def s)
  show "ResampledDataset_getitem r idx = Inl IndexError"
    by (simp add: ResampledDataset_getitem_def s py_getitem_outside [OF out])
next
  assume "priv_samples r = Some samples" and "priv_dataset r = Some d"
    and "- int (length samples) \<le> idx" and "idx < 0"
  then show "ResampledDataset_getitem r idx =
               ds_getitem d (samples ! nat (idx + int (length samples)))"
    by (simp add: rd_getitem_unfold py_getitem_from_end)
qed

text \<open>
  The last partition of a view over three rows, and a resampled dataset with one sample.
\<close>

theorem item_at_bounds_witness:
  "py_getitem (priv_partition_sizes
       \<lparr>priv_dataset = Some (ListDataset [10, 20, 30 :: int]), priv_lock_dataset = Some True,
        priv_partition_names = [''a'', ''b''], priv_partition_sizes = [2, 1],
        priv_partition_offsets = [2, 3], priv_active_partition_idx = Some 1\<rparr>) 1 = Inr 1
   \<and> PartitionedDataset_len
       \<lparr>priv_dataset = Some (ListDataset [10, 20, 30 :: int]), priv_lock_dataset = Some True,
        priv_partition_names = [''a'', ''b''], priv_partition_sizes = [2, 1],
        priv_partition_offsets = [2, 3], priv_active_partition_idx = Some 1\<rparr> = Inr 1
   \<and> PartitionedDataset_getitem
       \<lparr>priv_dataset = Some (ListDataset [10, 20, 30 :: int]), priv_lock_dataset = Some True,
        priv_partition_names = [''a'', ''b''], priv_partition_sizes = [2, 1],
        priv_partition_offsets = [2, 3], priv_active_partition_idx = Some 1\<rparr> 1 = Inl IndexError
   \<and> ResampledDataset_len
       \<lparr>priv_dataset = Some (ListDataset [10, 20, 30 :: int]), priv_lock_dataset = Some True,
        priv_samples = Some [2]\<rparr> = Inr 1
   \<and> ResampledDataset_getitem
       \<lparr>priv_dataset = Some (ListDataset [10, 20, 30 :: int]), priv_lock_dataset = Some True,
        priv_samples = Some [2]\<rparr> 1 = Inl IndexError
   \<and> ResampledDataset_getitem
       \<lparr>priv_dataset = Some (ListDataset [10, 20, 30 :: int]), priv_lock_dataset = Some True,
        priv_samples = Some [2]\<rparr> (- 1) = Inr 30"
  using
    item_at_bounds
      [where p = "\<lparr>priv_dataset = Some (ListDataset [10, 20, 30 :: int]),
                   priv_lock_dataset = Some True,
                   priv_partition_names = [''a'', ''b''], priv_partition_sizes = [2, 1],
                   priv_partition_offsets = [2, 3], priv_active_partition_idx = Some 1\<rparr>"
         and a = 1 and sz = 1 and idx = 1
         and r = "\<lparr>priv_dataset = Some (ListDataset [10, 20, 30 :: int]),
                   priv_lock_dataset = Some True, priv_samples = Some [2]\<rparr>"
         and samples = "[2]" and d = "ListDataset [10, 20, 30 :: int]"]
    item_at_bounds
      [where p = "\<lparr>priv_dataset = Some (ListDataset [10, 20, 30 :: int]),
                   priv_lock_dataset = Some True,
                   priv_partition_names = [''a'', ''b''], priv_partition_sizes = [2, 1],
                   priv_partition_offsets = [2, 3], priv_active_partition_idx = Some 1\<rparr>"
         and a = 1 and sz = 1 and idx = "- 1"
         and r = "\<lparr>priv_dataset = Some (ListDataset [10, 20, 30 :: int]),
                   priv_lock_dataset = Some True, priv_samples = Some [2]\<rparr>"
         and samples = "[2]" and d = "ListDataset [10, 20, 30 :: int]"]
  by (simp add: py_getitem_def ListDataset_def)

section \<open>Views keep the lock on\<close>

lemma set_active_partition_keeps:
  "priv_dataset (after v (PartitionedDataset_set_active_partition v name)) = priv_dataset v"
  "priv_lock_dataset (after v (PartitionedDataset_set_active_partition v name)) =
     priv_lock_dataset v"
  by (simp_all add: after_def PartitionedDataset_set_active_partition_def split: sum.split)

lemma pd_apply_keeps:
  assumes "priv_dataset v = Some d" and "priv_lock_dataset v = Some True"
  shows "priv_dataset (pd_apply v c) = Some d \<and> priv_lock_dataset (pd_apply v c) = Some True"
  using assms
  by (cases c)
    (simp_all add: PartitionedDataset_train_def PartitionedDataset_val_def
      PartitionedDataset_test_def set_active_partition_keeps locked_setter_keeps [OF assms])

lemma pd_calls_keep:
  assumes "priv_dataset v = Some d" and "priv_lock_dataset v = Some True"
  shows "priv_dataset (foldl pd_apply v calls) = Some d
         \<and> priv_lock_dataset (foldl pd_apply v calls) = Some True"
  using assms
proof (induction calls arbitrary: v)
  case Nil
  then show ?case by simp
next
  case (Cons c calls)
  from pd_apply_keeps [OF Cons.prems, of c] Cons.IH [of "pd_apply v c"]
  show ?case by simp
qed

lemma samples_setter_keeps:
  "priv_dataset (after v (ResampledDataset_samples_setter v s)) = priv_dataset v"
  "priv_lock_dataset (after v (ResampledDataset_samples_setter v s)) = priv_lock_dataset v"
  by (simp_all add: after_def ResampledDataset_samples_setter_def Let_def
      split: sum.split samples_arg.split option.split)

lemma rd_apply_keeps:
  assumes "priv_dataset v = Some d" and "priv_lock_dataset v = Some True"
  shows "priv_dataset (rd_apply v c) = Some d \<and> priv_lock_dataset (rd_apply v c) = Some True"
  using assms
  by (cases c) (simp_all add: samples_setter_keeps locked_setter_keeps [OF assms])

lemma rd_calls_keep:
  assumes "priv_dataset v = Some d" and "priv_lock_dataset v = Some True"
  shows "priv_dataset (foldl rd_apply v calls) = Some d
         \<and> priv_lock_dataset (foldl rd_apply v calls) = Some True"
  using assms
proof (induction calls arbitrary: v)
  case Nil
  then show ?case by simp
next
  case (Cons c calls)
  from rd_apply_keeps [OF Cons.prems, of c] Cons.IH [of "rd_apply v c"]
  show ?case by simp
qed

lemma rd_init_Inr:
  assumes "ResampledDataset_init (DatasetObj d) ss = Inr v"
  shows "priv_dataset v = Some d \<and> priv_lock_dataset v = Some True"
proof -
  let ?self = "\<lparr>priv_dataset = Some d, priv_lock_dataset = Some True, priv_samples = None\<rparr>"
  let ?s = "case ss of Some s \<Rightarrow> s | None \<Rightarrow> NdArray (np_arange (ds_len d))"
  from assms have "after ?self (ResampledDataset_samples_setter ?self ?s) = v"
    by (simp add: rd_init_unfold after_def)
  with samples_setter_keeps [of ?self ?s] show ?thesis by auto
qed

text \<open>
  C10. Both views construct their wrapper with the lock on. Whatever is done to a view
  after construction, its lock stays on, its wrapped dataset stays the one it was
  constructed with, and an assignment to \<open>dataset\<close> raises the lock's \<open>AssertionError\<close>.
\<close>

theorem derived_views_locked:
  "(PartitionedDataset_init (DatasetObj d) ps = Inr pv \<longrightarrow>
      priv_lock_dataset (foldl pd_apply pv pcalls) = Some True
      \<and> DatasetWrapper_dataset (foldl pd_apply pv pcalls) = Some d
      \<and> DatasetWrapper_dataset_setter (foldl pd_apply pv pcalls) obj =
          Inl (AssertionError
            ''Wrapped dataset cannot be changed after wrapper has been initialized.''))
   \<and> (ResampledDataset_init (DatasetObj d) ss = Inr rv \<longrightarrow>
      priv_lock_dataset (foldl rd_apply rv rcalls) = Some True
      \<and> DatasetWrapper_dataset (foldl rd_apply rv rcalls) = Some d
      \<and> DatasetWrapper_dataset_setter (foldl rd_apply rv rcalls) obj =
          Inl (AssertionError
            ''Wrapped dataset cannot be changed after wrapper has been initialized.''))"
proof (intro conjI impI)
  assume ok: "PartitionedDataset_init (DatasetObj d) ps = Inr pv"
  from pd_init_Inr [OF ok] have "priv_dataset pv = Some d" "priv_lock_dataset pv = Some True"
    by auto
  from pd_calls_keep [OF this, of pcalls]
  have *: "priv_dataset (foldl pd_apply pv pcalls) = Some d"
    "priv_lock_dataset (foldl pd_apply pv pcalls) = Some True" by simp_all
  show "priv_lock_dataset (foldl pd_apply pv pcalls) = Some True" by (rule *)
  show "DatasetWrapper_dataset (foldl pd_apply pv pcalls) = Some d"
    by (simp add: DatasetWrapper_dataset_def *)
  show "DatasetWrapper_dataset_setter (foldl pd_apply pv pcalls) obj =
          Inl (AssertionError
            ''Wrapped dataset cannot be changed after wrapper has been initialized.'')"
    by (rule setter_locked [OF *])
next
  assume ok: "ResampledDataset_init (DatasetObj d) ss = Inr rv"
  from rd_init_Inr [OF ok] have "priv_dataset rv = Some d" "priv_lock_dataset rv = Some True"
    by auto
  from rd_calls_keep [OF this, of rcalls]
  have *: "priv_dataset (foldl rd_apply rv rcalls) = Some d"
    "priv_lock_dataset (foldl rd_apply rv rcalls) = Some True" by simp_all
  show "priv_lock_dataset (foldl rd_apply rv rcalls) = Some True" by (rule *)
  show "DatasetWrapper_dataset (foldl rd_apply rv rcalls) = Some d"
    by (simp add: DatasetWrapper_dataset_def *)
  show "DatasetWrapper_dataset_setter (foldl rd_apply rv rcalls) obj =
          Inl (AssertionError
            ''Wrapped dataset cannot be changed after wrapper has been initialized.'')"
    by (rule setter_locked [OF *])
qed

text \<open>
  A partitioned and a resampled dataset over three rows, after some calls.
\<close>

theorem derived_views_locked_witness:
  "PartitionedDataset_init (DatasetObj (ListDataset [10, 20, 30 :: int]))
     (Some (PyDict [(''a'', PyInt 2), (''b'', PyInt 1)])) =
     Inr \<lparr>priv_dataset = Some (ListDataset [10, 20, 30]), priv_lock_dataset = Some True,
          priv_partition_names = [''a'', ''b''],
          priv_partition_sizes = [2, 1],
          priv_partition_offsets = [2, 3],
          priv_active_partition_idx = Some 0\<rparr>
   \<and> DatasetWrapper_dataset
        (foldl pd_apply
           \<lparr>priv_dataset = Some (ListDataset [10, 20, 30 :: int]), priv_lock_dataset = Some True,
            priv_partition_names = [''a'', ''b''],
            priv_partition_sizes = [2, 1],
            priv_partition_offsets = [2, 3],
            priv_active_partition_idx = Some 0\<rparr>
           [Pd_set_active_partition ''b'', Pd_set_dataset (DatasetObj (ListDataset [7])), Pd_train]) =
       Some (ListDataset [10, 20, 30])
   \<and> ResampledDataset_init (DatasetObj (ListDataset [10, 20, 30 :: int]))
        (Some (NdArray (Array [Scalar 2, Scalar 2]))) =
       Inr \<lparr>priv_dataset = Some (ListDataset [10, 20, 30]), priv_lock_dataset = Some True,
            priv_samples = Some [2, 2]\<rparr>
   \<and> DatasetWrapper_dataset_setter
        (foldl rd_apply
           \<lparr>priv_dataset = Some (ListDataset [10, 20, 30 :: int]), priv_lock_dataset = Some True,
            priv_samples = Some [2, 2]\<rparr>
           [Rd_set_samples (NdArray (Array [Scalar 0])), Rd_set_dataset OtherObj])
        (DatasetObj (ListDataset [7])) =
       Inl (AssertionError
         ''Wrapped dataset cannot be changed after wrapper has been initialized.'')"
proof -
  have pinit: "PartitionedDataset_init (DatasetObj (ListDataset [10, 20, 30 :: int]))
     (Some (PyDict [(''a'', PyInt 2), (''b'', PyInt 1)])) =
     Inr \<lparr>priv_dataset = Some (ListDataset [10, 20, 30]), priv_lock_dataset = Some True,
          priv_partition_names = [''a'', ''b''],
          priv_partition_sizes = [2, 1],
          priv_partition_offsets = [2, 3],
          priv_active_partition_idx = Some 0\<rparr>"
    by (simp add: PartitionedDataset_init_def DatasetWrapper_init_ok fractional_to_sizes_def
        py_sum_def py_le_def py_lt_def py_eq_def np_cumsum_def ListDataset_def py_getitem_def
        PartitionedDataset_set_active_partition_def)
  have rinit: "ResampledDataset_init (DatasetObj (ListDataset [10, 20, 30 :: int]))
        (Some (NdArray (Array [Scalar 2, Scalar 2]))) =
       Inr \<lparr>priv_dataset = Some (ListDataset [10, 20, 30]), priv_lock_dataset = Some True,
            priv_samples = Some [2, 2]\<rparr>"
    by (simp add: rd_init_unfold ResampledDataset_samples_setter_def ListDataset_def
      DatasetWrapper_dataset_def)
  show ?thesis
    using pinit rinit
      derived_views_locked
        [where d = "ListDataset [10, 20, 30 :: int]"
           and ps = "Some (PyDict [(''a'', PyInt 2), (''b'', PyInt 1)])"
           and pv = "\<lparr>priv_dataset = Some (ListDataset [10, 20, 30 :: int]),
                      priv_lock_dataset = Some True,
                      priv_partition_names = [''a'', ''b''],
                      priv_partition_sizes = [2, 1],
                      priv_partition_offsets = [2, 3],
                      priv_active_partition_idx = Some 0\<rparr>"
           and pcalls = "[Pd_set_active_partition ''b'',
                          Pd_set_dataset (DatasetObj (ListDataset [7])), Pd_train]"
           and ss = "Some (NdArray (Array [Scalar 2, Scalar 2]))"
           and rv = "\<lparr>priv_dataset = Some (ListDataset [10, 20, 30 :: int]),
                      priv_lock_dataset = Some True, priv_samples = Some [2, 2]\<rparr>"
           and rcalls = "[Rd_set_samples (NdArray (Array [Scalar 0])), Rd_set_dataset OtherObj]"
           and obj = "DatasetObj (ListDataset [7])"]
    by simp
qed

end
